theory Spec2Isabelle
  imports Main
begin

section \<open>Data model\<close>

text \<open>
  Errors raised by the code under study. \<open>ValueError l m\<close> is the length
  validation error of \<open>RewardModel.get_reward\<close> (sequence length \<open>l\<close>,
  configured maximum \<open>m\<close>); \<open>IndexError\<close> is an out-of-range index (Python
  list indexing, tensor indexing on an empty dimension); \<open>ZeroDivisionError\<close>
  is raised by \<open>/\<close> and \<open>%\<close> with a zero divisor; \<open>BatchSizeError\<close> is the
  ValueError the batch sampler of a DataLoader raises for a non-positive batch
  size; \<open>ExternalError\<close> stands for any failure propagated from an opaque
  collaborator (base model, backend engine, float coercion).
\<close>

datatype error =
    ValueError nat int
  | IndexError
  | ZeroDivisionError
  | BatchSizeError int
  | ExternalError string

text \<open>
  A two dimensional tensor of shape \<open>(length (rows t), dim1 t)\<close>. The second
  dimension is kept explicitly, as a tensor with no rows still has one.
\<close>

record 'a tensor2 =
  dim1 :: nat
  rows :: "'a list list"

text \<open>A function applied at every position of a tensor.\<close>

definition map_tensor2 :: "('a \<Rightarrow> 'b) \<Rightarrow> 'a tensor2 \<Rightarrow> 'b tensor2" where
  "map_tensor2 f t = \<lparr>dim1 = dim1 t, rows = map (map f) (rows t)\<rparr>"

text \<open>\<open>t[:, -1]\<close>: the last column; indexing an empty dimension raises.\<close>

definition last_column :: "'a tensor2 \<Rightarrow> error + 'a list" where
  "last_column t =
     (if dim1 t = 0 then Inl IndexError
      else Inr (map (\<lambda>r. r ! (dim1 t - 1)) (rows t)))"

text \<open>The fields of \<open>ConfigReward\<close> that the code reads.\<close>

record config =
  max_sequence_length :: int
  batch_size :: int
  epochs :: int
  iteration_per_print :: int
  checkpoint_steps :: int
  debug :: bool
  deepspeed_enable :: bool
  accelerate_enable :: bool

text \<open>A record of the statistics list, as passed to \<open>append_training_stats\<close>.\<close>

datatype 'f stat = Training_loss 'f | Validation_loss 'f

text \<open>
  Every call the code makes on a collaborator is recorded, in order, in a
  trace. The Boolean of a forward call is the gradient mode it ran under;
  the Boolean of a tokenizer call is its \<open>truncation\<close> argument.
\<close>

datatype 'f call =
    LoggerSuccess string
  | LoggerInfo string
  | Print string
  | SetupLogs
  | LoadCheckpoint
  | ModelTrain
  | ModelEval
  | Tokenizer "string list" bool
  | ModelForward "nat tensor2" "nat tensor2" bool
  | EngineForward "nat tensor2" "nat tensor2" bool
  | AppendTrainingStats "'f stat"
  | EngineBackward 'f
  | EngineStep
  | ZeroGrad
  | AcceleratorBackward 'f
  | LossBackward 'f
  | OptimizerStep
  | SchedulerStep
  | SaveCheckpoint int nat int int
  | ModelSave

text \<open>
  The mutable state: \<open>mstate\<close> stands for the model weights, the gradients,
  the optimizer state and the scheduler state together; \<open>training\<close> is the
  mode set by \<open>model.train()\<close> and \<open>model.eval()\<close>; \<open>grad_enabled\<close> is the
  global gradient mode that \<open>torch.no_grad()\<close> switches off;
  \<open>cnt_checkpoints\<close> and \<open>start_step\<close> are the local variables of
  \<open>RewardTrainer.train\<close> of the same names.
\<close>

record ('m, 'f) state =
  mstate :: 'm
  training :: bool
  grad_enabled :: bool
  trace :: "'f call list"
  cnt_checkpoints :: int
  start_step :: int

text \<open>
  The collaborators the source file does not define (base model and head of
  \<open>BaseModel\<close>, tokenizer, backend engine, optimizer, scheduler, accelerator,
  loss function, checkpoint loading) are parameters, together with the
  attributes of the trainer that \<open>train\<close> reads. A batch is what iterating a
  dataloader yields after collation: the texts and the scores of its samples.
\<close>

type_synonym 'f batch = "string list \<times> 'f list"

record ('m, 'h, 'f) trainer =
  model_forward :: "'m \<Rightarrow> bool \<Rightarrow> nat tensor2 \<Rightarrow> nat tensor2 \<Rightarrow> error + 'h tensor2"
  head :: "'m \<Rightarrow> 'h tensor2 \<Rightarrow> 'f tensor2"
  tokenizer :: "string list \<Rightarrow> bool \<Rightarrow> nat tensor2 \<times> nat tensor2"
  model_engine :: "'m \<Rightarrow> nat tensor2 \<Rightarrow> nat tensor2 \<Rightarrow> error + 'f tensor2"
  loss_function :: "'f list \<Rightarrow> 'f list \<Rightarrow> 'f"
  engine_backward :: "'f \<Rightarrow> 'm \<Rightarrow> 'm"
  engine_step :: "'m \<Rightarrow> 'm"
  zero_grad :: "'m \<Rightarrow> 'm"
  accelerator_backward :: "'f \<Rightarrow> 'm \<Rightarrow> 'm"
  loss_backward :: "'f \<Rightarrow> 'm \<Rightarrow> 'm"
  optimizer_step :: "'m \<Rightarrow> 'm"
  scheduler_step :: "'m \<Rightarrow> 'm"
  load_checkpoint :: "'m \<Rightarrow> (int \<times> int) \<times> 'm"
  train_dataset_len :: nat
  train_dataloader :: "'f batch list"
  train_dataloader_batch_size :: int
  validation_flag :: bool
  validation_dataloader :: "'f batch list"

definition call :: "'f call \<Rightarrow> ('m, 'f) state \<Rightarrow> ('m, 'f) state" where
  "call c s = s\<lparr>trace := trace s @ [c]\<rparr>"

section \<open>RewardModel\<close>

text \<open>
  \<open>RewardModel.forward\<close>: the base model, then the head on its hidden
  states, then the diagnostic output under the debug flag.
\<close>

definition forward ::
  "('m, 'h, 'f) trainer \<Rightarrow> config \<Rightarrow> nat tensor2 \<Rightarrow> nat tensor2 \<Rightarrow>
     ('m, 'f) state \<Rightarrow> (error + 'f tensor2) \<times> ('m, 'f) state" where
  "forward tr cfg output_sequence output_sequence_mask s =
     (let s1 = call (ModelForward output_sequence output_sequence_mask (grad_enabled s)) s in
      case model_forward tr (mstate s) (training s) output_sequence output_sequence_mask of
        Inl e \<Rightarrow> (Inl e, s1)
      | Inr output \<Rightarrow>
          (let rewards = head tr (mstate s) output;
               s2 = (if debug cfg
                     then call (Print ''reward'')
                            (call (Print ''reward.shape'')
                              (call (Print ''output_sequence'')
                                (call (Print ''output_sequence.shape'')
                                  (call (Print ''RewardModel.forward'') s1))))
                     else s1)
           in (Inr rewards, s2)))"

text \<open>\<open>RewardModel.get_reward\<close>.\<close>

definition get_reward ::
  "('m, 'h, 'f) trainer \<Rightarrow> config \<Rightarrow> nat tensor2 \<Rightarrow> nat tensor2 \<Rightarrow>
     ('m, 'f) state \<Rightarrow> (error + 'f list) \<times> ('m, 'f) state" where
  "get_reward tr cfg output_sequence output_sequence_mask s =
     (if int (dim1 output_sequence) > max_sequence_length cfg
      then (Inl (ValueError (dim1 output_sequence) (max_sequence_length cfg)), s)
      else case forward tr cfg output_sequence output_sequence_mask s of
             (Inl e, s') \<Rightarrow> (Inl e, s')
           | (Inr rewards, s') \<Rightarrow> (last_column rewards, s'))"

section \<open>RewardDataset\<close>

text \<open>
  An entry of the dataset file, of the shape the class documents. The
  coercion \<open>float(...)\<close> of the score is a parameter \<open>py_float\<close>; it can raise.
\<close>

record 'n entry =
  user_input :: string
  completion :: string
  score :: 'n

text \<open>\<open>RewardDataset.__getitem__\<close>, with Python's list indexing.\<close>

definition getitem ::
  "('n \<Rightarrow> error + 'f) \<Rightarrow> 'n entry list \<Rightarrow> int \<Rightarrow> error + (string \<times> 'f)" where
  "getitem py_float data idx =
     (let n = int (length data);
          j = (if idx < 0 then n + idx else idx)
      in if j < 0 \<or> n \<le> j then Inl IndexError
         else (let e = data ! nat j in
               case py_float (score e) of
                 Inl err \<Rightarrow> Inl err
               | Inr sc \<Rightarrow> Inr (user_input e @ completion e, sc)))"

definition len :: "'n entry list \<Rightarrow> nat" where
  "len data = length data"

section \<open>DataLoader\<close>

text \<open>
  Modelled from the spec: \<open>torch.utils.data.DataLoader\<close> is not under src/;
  the source only constructs it with a dataset and a batch size. With these
  arguments it traverses the dataset in store order and partitions it into
  groups of the batch size, with a final short group if the size does not
  divide evenly; a non-positive batch size is refused at construction.
\<close>

function batch_sampler :: "nat \<Rightarrow> 'a list \<Rightarrow> 'a list list" where
  "batch_sampler b xs =
     (if b = 0 \<or> xs = [] then [] else take b xs # batch_sampler b (drop b xs))"
  by pat_completeness auto
termination
  by (relation "measure (\<lambda>(b, xs). length xs)") auto

declare batch_sampler.simps [simp del]

text \<open>
  Modelled from the spec: the construction \<open>DataLoader(dataset, batch_size)\<close>
  of the library class that is not under src/, giving the batches an
  iteration yields.
\<close>

definition DataLoader :: "'a list \<Rightarrow> int \<Rightarrow> error + 'a list list" where
  "DataLoader dataset bs =
     (if bs \<le> 0 then Inl (BatchSizeError bs)
      else Inr (batch_sampler (nat bs) dataset))"

text \<open>The default collation of a group of samples into a batch.\<close>

definition collate :: "(string \<times> 'f) list \<Rightarrow> 'f batch" where
  "collate samples = (map fst samples, map snd samples)"

section \<open>RewardTrainer.train\<close>

text \<open>\<open>with torch.no_grad():\<close> the previous mode is restored on exit, also
  when the block raises.\<close>

definition no_grad ::
  "(('m, 'f) state \<Rightarrow> 'a \<times> ('m, 'f) state) \<Rightarrow> ('m, 'f) state \<Rightarrow> 'a \<times> ('m, 'f) state" where
  "no_grad f s =
     (let prev = grad_enabled s in
      case f (s\<lparr>grad_enabled := False\<rparr>) of
        (r, s') \<Rightarrow> (r, s'\<lparr>grad_enabled := prev\<rparr>))"

text \<open>A call that updates the weights, optimizer or scheduler state.\<close>

definition update :: "'f call \<Rightarrow> ('m \<Rightarrow> 'm) \<Rightarrow> ('m, 'f) state \<Rightarrow> ('m, 'f) state" where
  "update c f s = (call c s)\<lparr>mstate := f (mstate s)\<rparr>"

text \<open>\<open>int(a / b)\<close> on integers: true division, truncated towards zero
  (the rounding of the intermediate float is not modelled).\<close>

definition int_truediv :: "int \<Rightarrow> int \<Rightarrow> error + int" where
  "int_truediv a b =
     (if b = 0 then Inl ZeroDivisionError
      else Inr (sgn a * sgn b * (\<bar>a\<bar> div \<bar>b\<bar>)))"

text \<open>Lines 244 to 254: tokenize the input, under no-gradient mode.\<close>

definition tokenize_input ::
  "('m, 'h, 'f) trainer \<Rightarrow> string list \<Rightarrow> ('m, 'f) state \<Rightarrow>
     (nat tensor2 \<times> nat tensor2) \<times> ('m, 'f) state" where
  "tokenize_input tr input_text s =
     no_grad (\<lambda>s1. (tokenizer tr input_text True, call (Tokenizer input_text True) s1)) s"

text \<open>Lines 256 to 266: the forward pass.\<close>

definition forward_pass ::
  "('m, 'h, 'f) trainer \<Rightarrow> config \<Rightarrow> nat tensor2 \<Rightarrow> nat tensor2 \<Rightarrow>
     ('m, 'f) state \<Rightarrow> (error + 'f list) \<times> ('m, 'f) state" where
  "forward_pass tr cfg input_ids attention_mask s =
     (if deepspeed_enable cfg
      then (let s1 = call (EngineForward input_ids attention_mask (grad_enabled s)) s in
            case model_engine tr (mstate s) input_ids attention_mask of
              Inl e \<Rightarrow> (Inl e, s1)
            | Inr out \<Rightarrow> (last_column out, s1))
      else get_reward tr cfg input_ids attention_mask s)"

text \<open>Lines 272 to 285: the backward pass.\<close>

definition backward_pass ::
  "('m, 'h, 'f) trainer \<Rightarrow> config \<Rightarrow> 'f \<Rightarrow> ('m, 'f) state \<Rightarrow> ('m, 'f) state" where
  "backward_pass tr cfg loss s =
     (if deepspeed_enable cfg
      then update EngineStep (engine_step tr)
             (update (EngineBackward loss) (engine_backward tr loss) s)
      else if accelerate_enable cfg
      then update SchedulerStep (scheduler_step tr)
             (update OptimizerStep (optimizer_step tr)
               (update (AcceleratorBackward loss) (accelerator_backward tr loss)
                 (update ZeroGrad (zero_grad tr) s)))
      else update SchedulerStep (scheduler_step tr)
             (update OptimizerStep (optimizer_step tr)
               (update (LossBackward loss) (loss_backward tr loss)
                 (update ZeroGrad (zero_grad tr) s))))"

text \<open>Lines 287 to 300: print progress.\<close>

definition print_progress ::
  "config \<Rightarrow> nat \<Rightarrow> ('m, 'f) state \<Rightarrow> (error + unit) \<times> ('m, 'f) state" where
  "print_progress cfg i s =
     (if iteration_per_print cfg = 0 then (Inl ZeroDivisionError, s)
      else if int i mod iteration_per_print cfg = 0
      then (Inr (), call (LoggerInfo ''prediction'') (call (LoggerInfo ''Training Loss'') s))
      else (Inr (), s))"

text \<open>Lines 302 to 307: checkpoints saving.\<close>

definition checkpoints_saving ::
  "config \<Rightarrow> int \<Rightarrow> nat \<Rightarrow> int \<Rightarrow> ('m, 'f) state \<Rightarrow> (error + unit) \<times> ('m, 'f) state" where
  "checkpoints_saving cfg epoch i n_iter s =
     (if checkpoint_steps cfg = 0 then (Inl ZeroDivisionError, s)
      else if cnt_checkpoints s mod checkpoint_steps cfg = 0
      then (Inr (), (call (SaveCheckpoint epoch i (epochs cfg) n_iter) s)\<lparr>cnt_checkpoints := 1\<rparr>)
      else (Inr (), s\<lparr>cnt_checkpoints := cnt_checkpoints s + 1\<rparr>))"

text \<open>Lines 240 to 307: the body of the training loop for a batch that is
  not skipped.\<close>

definition train_step ::
  "('m, 'h, 'f) trainer \<Rightarrow> config \<Rightarrow> int \<Rightarrow> int \<Rightarrow> nat \<Rightarrow> 'f batch \<Rightarrow>
     ('m, 'f) state \<Rightarrow> (error + unit) \<times> ('m, 'f) state" where
  "train_step tr cfg n_iter epoch i inputs s =
     (let input_text = fst inputs;
          score = snd inputs
      in case tokenize_input tr input_text s of
        ((input_ids, attention_mask), s1) \<Rightarrow>
          (let output = score in
           case forward_pass tr cfg input_ids attention_mask s1 of
             (Inl e, s2) \<Rightarrow> (Inl e, s2)
           | (Inr est_output, s2) \<Rightarrow>
               (let loss = loss_function tr est_output output;
                    s3 = call (AppendTrainingStats (Training_loss loss)) s2;
                    s4 = backward_pass tr cfg loss s3
                in case print_progress cfg i s4 of
                     (Inl e, s5) \<Rightarrow> (Inl e, s5)
                   | (Inr u, s5) \<Rightarrow> checkpoints_saving cfg epoch i n_iter s5)))"

text \<open>Lines 234 to 307: the loop over the enumerated training batches.\<close>

fun train_loop ::
  "('m, 'h, 'f) trainer \<Rightarrow> config \<Rightarrow> int \<Rightarrow> int \<Rightarrow> (nat \<times> 'f batch) list \<Rightarrow>
     ('m, 'f) state \<Rightarrow> (error + unit) \<times> ('m, 'f) state" where
  "train_loop tr cfg n_iter epoch [] s = (Inr (), s)"
| "train_loop tr cfg n_iter epoch ((i, inputs) # rest) s =
     (if int i < start_step s then train_loop tr cfg n_iter epoch rest s
      else case train_step tr cfg n_iter epoch i inputs s of
             (Inl e, s') \<Rightarrow> (Inl e, s')
           | (Inr u, s') \<Rightarrow> train_loop tr cfg n_iter epoch rest s')"

text \<open>Lines 338 to 344: print progress of the validation.\<close>

definition print_validation_progress ::
  "config \<Rightarrow> nat \<Rightarrow> ('m, 'f) state \<Rightarrow> (error + unit) \<times> ('m, 'f) state" where
  "print_validation_progress cfg i s =
     (if iteration_per_print cfg = 0 then (Inl ZeroDivisionError, s)
      else if int i mod iteration_per_print cfg = 0
      then (Inr (), call (LoggerInfo ''Validation Loss'') s)
      else (Inr (), s))"

text \<open>Lines 317 to 344: the body of the validation loop.\<close>

definition validation_step ::
  "('m, 'h, 'f) trainer \<Rightarrow> config \<Rightarrow> nat \<Rightarrow> 'f batch \<Rightarrow>
     ('m, 'f) state \<Rightarrow> (error + unit) \<times> ('m, 'f) state" where
  "validation_step tr cfg i inputs s =
     (let text = fst inputs;
          score = snd inputs;
          input_tokens = tokenizer tr text False;
          s1 = call (Tokenizer text False) s;
          output = score
      in case get_reward tr cfg (fst input_tokens) (snd input_tokens) s1 of
           (Inl e, s2) \<Rightarrow> (Inl e, s2)
         | (Inr est_output, s2) \<Rightarrow>
             (let loss = loss_function tr est_output output;
                  s3 = call (AppendTrainingStats (Validation_loss loss)) s2
              in print_validation_progress cfg i s3))"

fun validation_loop ::
  "('m, 'h, 'f) trainer \<Rightarrow> config \<Rightarrow> (nat \<times> 'f batch) list \<Rightarrow>
     ('m, 'f) state \<Rightarrow> (error + unit) \<times> ('m, 'f) state" where
  "validation_loop tr cfg [] s = (Inr (), s)"
| "validation_loop tr cfg ((i, inputs) # rest) s =
     (case validation_step tr cfg i inputs s of
        (Inl e, s') \<Rightarrow> (Inl e, s')
      | (Inr u, s') \<Rightarrow> validation_loop tr cfg rest s')"

text \<open>Lines 309 to 344: the validation phase of an epoch.\<close>

definition validation ::
  "('m, 'h, 'f) trainer \<Rightarrow> config \<Rightarrow> ('m, 'f) state \<Rightarrow> (error + unit) \<times> ('m, 'f) state" where
  "validation tr cfg s =
     (if validation_flag tr
      then no_grad (validation_loop tr cfg (enumerate 0 (validation_dataloader tr)))
             ((call ModelEval s)\<lparr>training := False\<rparr>)
      else (Inr (), s))"

text \<open>Lines 233 to 346: one epoch.\<close>

definition train_epoch ::
  "('m, 'h, 'f) trainer \<Rightarrow> config \<Rightarrow> int \<Rightarrow> int \<Rightarrow>
     ('m, 'f) state \<Rightarrow> (error + unit) \<times> ('m, 'f) state" where
  "train_epoch tr cfg n_iter epoch s =
     (case train_loop tr cfg n_iter epoch (enumerate 0 (train_dataloader tr))
             ((call ModelTrain s)\<lparr>training := True\<rparr>) of
        (Inl e, s1) \<Rightarrow> (Inl e, s1)
      | (Inr u, s1) \<Rightarrow>
          (case validation tr cfg s1 of
             (Inl e, s2) \<Rightarrow> (Inl e, s2)
           | (Inr u, s2) \<Rightarrow> (Inr (), s2\<lparr>start_step := 0\<rparr>)))"

text \<open>Line 232: the loop over \<open>range(start_epoch, epochs)\<close>.\<close>

fun epoch_loop ::
  "('m, 'h, 'f) trainer \<Rightarrow> config \<Rightarrow> int \<Rightarrow> int list \<Rightarrow>
     ('m, 'f) state \<Rightarrow> (error + unit) \<times> ('m, 'f) state" where
  "epoch_loop tr cfg n_iter [] s = (Inr (), s)"
| "epoch_loop tr cfg n_iter (epoch # rest) s =
     (case train_epoch tr cfg n_iter epoch s of
        (Inl e, s') \<Rightarrow> (Inl e, s')
      | (Inr u, s') \<Rightarrow> epoch_loop tr cfg n_iter rest s')"

text \<open>\<open>RewardTrainer.train\<close>.\<close>

definition train ::
  "('m, 'h, 'f) trainer \<Rightarrow> config \<Rightarrow> ('m, 'f) state \<Rightarrow> (error + unit) \<times> ('m, 'f) state" where
  "train tr cfg s =
     (let s1 = call SetupLogs (call (LoggerSuccess ''Start Training the Reward Model'') s);
          batch_size = (if deepspeed_enable cfg then train_dataloader_batch_size tr
                        else batch_size cfg)
      in case int_truediv (int (train_dataset_len tr)) batch_size of
           Inl e \<Rightarrow> (Inl e, s1)
         | Inr n_iter \<Rightarrow>
             (case load_checkpoint tr (mstate s1) of
                ((start_epoch, start_step0), m) \<Rightarrow>
                  (let s2 = (call LoadCheckpoint s1)
                              \<lparr>mstate := m, cnt_checkpoints := 1, start_step := start_step0\<rparr>
                   in case epoch_loop tr cfg n_iter [start_epoch..epochs cfg - 1] s2 of
                        (Inl e, s3) \<Rightarrow> (Inl e, s3)
                      | (Inr u, s3) \<Rightarrow>
                          (Inr (), call (LoggerSuccess ''Training is finished'')
                                     (call ModelSave s3)))))"

section \<open>Observations on the trace of calls\<close>

text \<open>
  The calls that update the weights, the optimizer state or the scheduler
  state: backward passes, optimizer, scheduler and engine steps.
\<close>

fun is_update :: "'f call \<Rightarrow> bool" where
  "is_update (EngineBackward l) = True"
| "is_update EngineStep = True"
| "is_update ZeroGrad = True"
| "is_update (AcceleratorBackward l) = True"
| "is_update (LossBackward l) = True"
| "is_update OptimizerStep = True"
| "is_update SchedulerStep = True"
| "is_update c = False"

definition updates :: "'f call list \<Rightarrow> 'f call list" where
  "updates t = filter is_update t"

text \<open>The forward calls that ran with the gradient mode enabled.\<close>

fun with_grad :: "'f call \<Rightarrow> bool" where
  "with_grad (ModelForward ids am g) = g"
| "with_grad (EngineForward ids am g) = g"
| "with_grad c = False"

definition grad_forwards :: "'f call list \<Rightarrow> 'f call list" where
  "grad_forwards t = filter with_grad t"

text \<open>The forward calls of the reward model.\<close>

fun model_forward_call :: "'f call \<Rightarrow> bool" where
  "model_forward_call (ModelForward ids am g) = True"
| "model_forward_call c = False"

definition model_forwards :: "'f call list \<Rightarrow> 'f call list" where
  "model_forwards t = filter model_forward_call t"

text \<open>The validation losses recorded, in order.\<close>

fun validation_loss_of :: "'f call \<Rightarrow> 'f list" where
  "validation_loss_of (AppendTrainingStats (Validation_loss l)) = [l]"
| "validation_loss_of c = []"

definition validation_losses :: "'f call list \<Rightarrow> 'f list" where
  "validation_losses t = concat (map validation_loss_of t)"

text \<open>
  The texts of the batches given to the tokenizer by the training loop (the
  call with \<open>truncation=True\<close>; the validation loop calls it without).
\<close>

fun training_input_of :: "'f call \<Rightarrow> string list list" where
  "training_input_of (Tokenizer texts truncation) = (if truncation then [texts] else [])"
| "training_input_of c = []"

definition training_inputs :: "'f call list \<Rightarrow> string list list" where
  "training_inputs t = concat (map training_input_of t)"

text \<open>
  The batches a run is expected to process when it resumes at step \<open>k\<close> of
  an epoch and has \<open>n\<close> epochs left to run, \<open>bs\<close> being the batches of one
  epoch: those of the first epoch from index \<open>k\<close> on, then all batches of
  every later epoch.
\<close>

definition processed_batches :: "'b list \<Rightarrow> int \<Rightarrow> nat \<Rightarrow> 'b list" where
  "processed_batches bs k n =
     (if n = 0 then [] else drop (nat k) bs @ concat (replicate (n - 1) bs))"

text \<open>
  The checkpoint cadence: a processed training batch is marked by the record
  of its training loss, a checkpoint by the call of \<open>save_checkpoint\<close>, the
  final snapshot by the call of \<open>model.save\<close>.
\<close>

datatype mark = Batch | Save | Final

fun mark_of :: "'f call \<Rightarrow> mark list" where
  "mark_of (AppendTrainingStats (Training_loss l)) = [Batch]"
| "mark_of (SaveCheckpoint epoch i n_epochs n_iter) = [Save]"
| "mark_of ModelSave = [Final]"
| "mark_of c = []"

definition marks :: "'f call list \<Rightarrow> mark list" where
  "marks t = concat (map mark_of t)"

text \<open>
  The marks expected of the processed batches number \<open>q + 1\<close> to \<open>q + p\<close>
  of a run that saves a checkpoint with every \<open>n\<close>-th processed batch.
\<close>

fun cadence :: "int \<Rightarrow> nat \<Rightarrow> nat \<Rightarrow> mark list" where
  "cadence n q 0 = []"
| "cadence n q (Suc p) =
     cadence n q p @ (if int (q + Suc p) mod n = 0 then [Batch, Save] else [Batch])"

text \<open>
  The calls a training step makes on the backend: the forward calls and the
  updating calls.
\<close>

fun backend_call :: "'f call \<Rightarrow> bool" where
  "backend_call (ModelForward ids am g) = True"
| "backend_call (EngineForward ids am g) = True"
| "backend_call c = is_update c"

definition backend_calls :: "'f call list \<Rightarrow> 'f call list" where
  "backend_calls t = filter backend_call t"

text \<open>
  The backend variants, and the backend calls that make up one training step
  of each: on the tokens \<open>ids\<close> and the attention mask \<open>am\<close>, under the
  gradient mode \<open>g\<close>, with the loss \<open>l\<close>.
\<close>

datatype variant = Plain | Accelerated | Distributed_optimized

fun variant_calls :: "variant \<Rightarrow> nat tensor2 \<Rightarrow> nat tensor2 \<Rightarrow> bool \<Rightarrow> 'f \<Rightarrow> 'f call list" where
  "variant_calls Plain ids am g l =
     [ModelForward ids am g, ZeroGrad, LossBackward l, OptimizerStep, SchedulerStep]"
| "variant_calls Accelerated ids am g l =
     [ModelForward ids am g, ZeroGrad, AcceleratorBackward l, OptimizerStep, SchedulerStep]"
| "variant_calls Distributed_optimized ids am g l =
     [EngineForward ids am g, EngineBackward l, EngineStep]"

text \<open>The calls the validation phase may make.\<close>

fun validation_call :: "'f call \<Rightarrow> bool" where
  "validation_call ModelEval = True"
| "validation_call (Tokenizer texts truncation) = (\<not> truncation)"
| "validation_call (ModelForward ids am g) = (\<not> g)"
| "validation_call (Print msg) = True"
| "validation_call (AppendTrainingStats (Validation_loss l)) = True"
| "validation_call (LoggerInfo msg) = True"
| "validation_call c = False"

section \<open>A deterministic stub of the collaborators\<close>

text \<open>
  A small instance of the parameters, used to run the definitions on concrete
  inputs: the hidden state of a position is its token, the head adds the
  number of optimizer steps taken so far, the tokenizer maps characters to
  their codes and pads to the longest text of the batch.
\<close>

definition stub_tokenizer :: "string list \<Rightarrow> bool \<Rightarrow> nat tensor2 \<times> nat tensor2" where
  "stub_tokenizer texts truncation =
     (let l = fold max (map length texts) 0 in
      (\<lparr>dim1 = l, rows = map (\<lambda>t. map of_char t @ replicate (l - length t) 0) texts\<rparr>,
       \<lparr>dim1 = l, rows = map (\<lambda>t. replicate (length t) 1 @ replicate (l - length t) 0) texts\<rparr>))"

definition stub_trainer :: "(nat, nat, int) trainer" where
  "stub_trainer =
     \<lparr>model_forward = (\<lambda>m t ids am. Inr ids),
      head = (\<lambda>m. map_tensor2 (\<lambda>h. int (h + m))),
      tokenizer = stub_tokenizer,
      model_engine = (\<lambda>m ids am. Inr (map_tensor2 (\<lambda>h. int (h + m)) ids)),
      loss_function = (\<lambda>est out. sum_list (map2 (\<lambda>a b. (a - b) * (a - b)) est out)),
      engine_backward = (\<lambda>l m. m),
      engine_step = Suc,
      zero_grad = (\<lambda>m. m),
      accelerator_backward = (\<lambda>l m. m),
      loss_backward = (\<lambda>l m. m),
      optimizer_step = Suc,
      scheduler_step = (\<lambda>m. m),
      load_checkpoint = (\<lambda>m. ((0, 1), m)),
      train_dataset_len = 3,
      train_dataloader = [([''ab'', ''c''], [1, 0]), ([''abc''], [1])],
      train_dataloader_batch_size = 2,
      validation_flag = True,
      validation_dataloader = [([''b''], [0])]\<rparr>"

definition stub_config :: config where
  "stub_config =
     \<lparr>max_sequence_length = 2, batch_size = 2, epochs = 2, iteration_per_print = 2,
      checkpoint_steps = 2, debug = False, deepspeed_enable = False,
      accelerate_enable = False\<rparr>"

definition stub_state :: "(nat, int) state" where
  "stub_state =
     \<lparr>mstate = 0, training = False, grad_enabled = True, trace = [],
      cnt_checkpoints = 0, start_step = 0\<rparr>"

definition stub_ids :: "nat tensor2" where
  "stub_ids = \<lparr>dim1 = 2, rows = [[1, 2], [3, 4]]\<rparr>"

definition stub_mask :: "nat tensor2" where
  "stub_mask = \<lparr>dim1 = 2, rows = [[1, 1], [1, 1]]\<rparr>"

definition stub_long_ids :: "nat tensor2" where
  "stub_long_ids = \<lparr>dim1 = 3, rows = [[1, 2, 3]]\<rparr>"

definition stub_long_mask :: "nat tensor2" where
  "stub_long_mask = \<lparr>dim1 = 3, rows = [[1, 1, 1]]\<rparr>"

definition stub_data :: "int entry list" where
  "stub_data =
     [\<lparr>user_input = ''Q: 2+2?'', completion = ''4'', score = 1\<rparr>,
      \<lparr>user_input = ''Q: 2+2?'', completion = ''five'', score = 0\<rparr>]"

definition stub_float :: "int \<Rightarrow> error + int" where
  "stub_float n = Inr n"

section \<open>Basic facts about the state and the trace\<close>

lemma call_simps [simp]:
  "trace (call c s) = trace s @ [c]"
  "mstate (call c s) = mstate s"
  "training (call c s) = training s"
  "grad_enabled (call c s) = grad_enabled s"
  "cnt_checkpoints (call c s) = cnt_checkpoints s"
  "start_step (call c s) = start_step s"
  by (simp_all add: call_def)

lemma update_simps [simp]:
  "trace (update c f s) = trace s @ [c]"
  "mstate (update c f s) = f (mstate s)"
  "training (update c f s) = training s"
  "grad_enabled (update c f s) = grad_enabled s"
  "cnt_checkpoints (update c f s) = cnt_checkpoints s"
  "start_step (update c f s) = start_step s"
  by (simp_all add: update_def)

lemma updates_append [simp]: "updates (t @ u) = updates t @ updates u"
  by (simp add: updates_def)

lemma grad_forwards_append [simp]: "grad_forwards (t @ u) = grad_forwards t @ grad_forwards u"
  by (simp add: grad_forwards_def)

lemma model_forwards_append [simp]:
  "model_forwards (t @ u) = model_forwards t @ model_forwards u"
  by (simp add: model_forwards_def)

lemma validation_losses_append [simp]:
  "validation_losses (t @ u) = validation_losses t @ validation_losses u"
  by (simp add: validation_losses_def)

lemma training_inputs_append [simp]:
  "training_inputs (t @ u) = training_inputs t @ training_inputs u"
  by (simp add: training_inputs_def)

lemma marks_append [simp]: "marks (t @ u) = marks t @ marks u"
  by (simp add: marks_def)

lemma backend_calls_append [simp]:
  "backend_calls (t @ u) = backend_calls t @ backend_calls u"
  by (simp add: backend_calls_def)

lemma observations_Nil [simp]:
  "updates [] = []" "grad_forwards [] = []" "validation_losses [] = []"
  "training_inputs [] = []" "marks [] = []" "backend_calls [] = []" "model_forwards [] = []"
  by (simp_all add: updates_def grad_forwards_def validation_losses_def
      training_inputs_def marks_def backend_calls_def model_forwards_def)

lemma observations_Cons [simp]:
  "updates (c # t) = (if is_update c then c # updates t else updates t)"
  "grad_forwards (c # t) = (if with_grad c then c # grad_forwards t else grad_forwards t)"
  "validation_losses (c # t) = validation_loss_of c @ validation_losses t"
  "training_inputs (c # t) = training_input_of c @ training_inputs t"
  "marks (c # t) = mark_of c @ marks t"
  "backend_calls (c # t) = (if backend_call c then c # backend_calls t else backend_calls t)"
  "model_forwards (c # t) = (if model_forward_call c then c # model_forwards t
                             else model_forwards t)"
  by (simp_all add: updates_def grad_forwards_def validation_losses_def
      training_inputs_def marks_def backend_calls_def model_forwards_def)

text \<open>The effect of the forward computations on the trace.\<close>

lemma forward_trace:
  "forward tr cfg ids am s = (r, s') \<Longrightarrow>
     \<exists>ps. trace s' = trace s @ ModelForward ids am (grad_enabled s) # ps
        \<and> list_all (\<lambda>c. \<exists>msg. c = Print msg) ps
        \<and> mstate s' = mstate s \<and> training s' = training s
        \<and> grad_enabled s' = grad_enabled s
        \<and> cnt_checkpoints s' = cnt_checkpoints s \<and> start_step s' = start_step s"
  by (auto simp: forward_def Let_def split: sum.splits if_splits)

lemma get_reward_trace:
  "get_reward tr cfg ids am s = (r, s') \<Longrightarrow>
     \<exists>ps. trace s' = trace s @ ps
        \<and> list_all (\<lambda>c. c = ModelForward ids am (grad_enabled s) \<or> (\<exists>msg. c = Print msg)) ps
        \<and> ((\<exists>x. r = Inr x) \<longrightarrow> length (model_forwards ps) = 1)
        \<and> mstate s' = mstate s \<and> training s' = training s
        \<and> grad_enabled s' = grad_enabled s
        \<and> cnt_checkpoints s' = cnt_checkpoints s \<and> start_step s' = start_step s"
  by (auto simp: get_reward_def forward_def Let_def last_column_def
      split: sum.splits if_splits prod.splits)

lemma tokenize_input_eq:
  "tokenize_input tr texts s = (tokenizer tr texts True, call (Tokenizer texts True) s)"
  by (simp add: tokenize_input_def no_grad_def call_def)

lemma forward_pass_fields:
  "forward_pass tr cfg ids am s = (r, s') \<Longrightarrow>
     mstate s' = mstate s \<and> training s' = training s \<and> grad_enabled s' = grad_enabled s
     \<and> cnt_checkpoints s' = cnt_checkpoints s \<and> start_step s' = start_step s"
  by (auto simp: forward_pass_def Let_def split: if_splits sum.splits dest: get_reward_trace)

lemma backward_pass_fields [simp]:
  "training (backward_pass tr cfg l s) = training s"
  "grad_enabled (backward_pass tr cfg l s) = grad_enabled s"
  "cnt_checkpoints (backward_pass tr cfg l s) = cnt_checkpoints s"
  "start_step (backward_pass tr cfg l s) = start_step s"
  by (simp_all add: backward_pass_def)

lemma backward_pass_trace:
  "trace (backward_pass tr cfg l s) = trace s @
     (if deepspeed_enable cfg then [EngineBackward l, EngineStep]
      else if accelerate_enable cfg
      then [ZeroGrad, AcceleratorBackward l, OptimizerStep, SchedulerStep]
      else [ZeroGrad, LossBackward l, OptimizerStep, SchedulerStep])"
  by (simp add: backward_pass_def)

lemma print_progress_effect:
  "print_progress cfg i s = (r, s') \<Longrightarrow>
     (\<exists>ps. trace s' = trace s @ ps \<and> list_all (\<lambda>c. \<exists>msg. c = LoggerInfo msg) ps)
     \<and> mstate s' = mstate s \<and> training s' = training s \<and> grad_enabled s' = grad_enabled s
     \<and> cnt_checkpoints s' = cnt_checkpoints s \<and> start_step s' = start_step s"
  by (auto simp: print_progress_def split: if_splits)

lemma checkpoints_saving_effect:
  "checkpoints_saving cfg epoch i n_iter s = (Inr u, s') \<Longrightarrow>
     checkpoint_steps cfg \<noteq> 0
     \<and> trace s' = trace s @
          (if cnt_checkpoints s mod checkpoint_steps cfg = 0
           then [SaveCheckpoint epoch i (epochs cfg) n_iter] else [])
     \<and> cnt_checkpoints s' =
          (if cnt_checkpoints s mod checkpoint_steps cfg = 0 then 1 else cnt_checkpoints s + 1)
     \<and> mstate s' = mstate s \<and> training s' = training s \<and> grad_enabled s' = grad_enabled s
     \<and> start_step s' = start_step s"
  by (auto simp: checkpoints_saving_def split: if_splits)

lemma forward_pass_trace:
  "forward_pass tr cfg ids am s = (r, s') \<Longrightarrow>
     \<exists>ps. trace s' = trace s @ ps
        \<and> list_all (\<lambda>c. (deepspeed_enable cfg \<and> c = EngineForward ids am (grad_enabled s))
                      \<or> (\<not> deepspeed_enable cfg \<and> c = ModelForward ids am (grad_enabled s))
                      \<or> (\<exists>msg. c = Print msg)) ps
        \<and> (deepspeed_enable cfg \<longrightarrow> ps = [EngineForward ids am (grad_enabled s)])"
  by (auto simp: forward_pass_def Let_def list_all_iff split: if_splits sum.splits
      dest!: get_reward_trace)

lemma train_step_success:
  assumes "train_step tr cfg n_iter epoch i inputs s = (Inr u, s')"
  shows "\<exists>fw l lg.
     trace s' = trace s @ Tokenizer (fst inputs) True # fw
        @ AppendTrainingStats (Training_loss l)
        # (if deepspeed_enable cfg then [EngineBackward l, EngineStep]
           else if accelerate_enable cfg
           then [ZeroGrad, AcceleratorBackward l, OptimizerStep, SchedulerStep]
           else [ZeroGrad, LossBackward l, OptimizerStep, SchedulerStep])
        @ lg
        @ (if cnt_checkpoints s mod checkpoint_steps cfg = 0
           then [SaveCheckpoint epoch i (epochs cfg) n_iter] else [])
     \<and> list_all (\<lambda>c. (deepspeed_enable cfg \<and> c = EngineForward (fst (tokenizer tr (fst inputs) True))
                          (snd (tokenizer tr (fst inputs) True)) (grad_enabled s))
                   \<or> (\<not> deepspeed_enable cfg \<and> c = ModelForward (fst (tokenizer tr (fst inputs) True))
                          (snd (tokenizer tr (fst inputs) True)) (grad_enabled s))
                   \<or> (\<exists>msg. c = Print msg)) fw
     \<and> (deepspeed_enable cfg \<longrightarrow> fw = [EngineForward (fst (tokenizer tr (fst inputs) True))
                          (snd (tokenizer tr (fst inputs) True)) (grad_enabled s)])
     \<and> list_all (\<lambda>c. \<exists>msg. c = LoggerInfo msg) lg
     \<and> checkpoint_steps cfg \<noteq> 0
     \<and> cnt_checkpoints s' =
          (if cnt_checkpoints s mod checkpoint_steps cfg = 0 then 1 else cnt_checkpoints s + 1)
     \<and> training s' = training s \<and> grad_enabled s' = grad_enabled s
     \<and> start_step s' = start_step s
     \<and> mstate s' =
          (if deepspeed_enable cfg then engine_step tr (engine_backward tr l (mstate s))
           else if accelerate_enable cfg
           then scheduler_step tr (optimizer_step tr
                  (accelerator_backward tr l (zero_grad tr (mstate s))))
           else scheduler_step tr (optimizer_step tr
                  (loss_backward tr l (zero_grad tr (mstate s)))))"
proof -
  obtain ids am where tok: "tokenizer tr (fst inputs) True = (ids, am)"
    by (cases "tokenizer tr (fst inputs) True")
  define s1 where "s1 = call (Tokenizer (fst inputs) True) s"
  obtain r2 s2 where fp: "forward_pass tr cfg ids am s1 = (r2, s2)"
    by (cases "forward_pass tr cfg ids am s1")
  from assms tok fp obtain est where r2: "r2 = Inr est"
    by (cases r2) (auto simp: train_step_def tokenize_input_eq s1_def Let_def)
  define l where "l = loss_function tr est (snd inputs)"
  define s4 where "s4 = backward_pass tr cfg l (call (AppendTrainingStats (Training_loss l)) s2)"
  obtain r5 s5 where pp: "print_progress cfg i s4 = (r5, s5)"
    by (cases "print_progress cfg i s4")
  from assms tok fp r2 pp have r5: "r5 = Inr ()"
    by (cases r5) (auto simp: train_step_def tokenize_input_eq s1_def Let_def l_def s4_def)
  from assms tok fp r2 pp r5 have cs: "checkpoints_saving cfg epoch i n_iter s5 = (Inr u, s')"
    by (auto simp: train_step_def tokenize_input_eq s1_def Let_def l_def s4_def)
  from forward_pass_trace [OF fp] obtain fw where
    fw: "trace s2 = trace s1 @ fw"
      "list_all (\<lambda>c. (deepspeed_enable cfg \<and> c = EngineForward ids am (grad_enabled s1))
                      \<or> (\<not> deepspeed_enable cfg \<and> c = ModelForward ids am (grad_enabled s1))
                      \<or> (\<exists>msg. c = Print msg)) fw"
      "deepspeed_enable cfg \<longrightarrow> fw = [EngineForward ids am (grad_enabled s1)]"
    by blast
  note f2 = forward_pass_fields [OF fp]
  from print_progress_effect [OF pp] obtain lg where
    lg: "trace s5 = trace s4 @ lg" "list_all (\<lambda>c. \<exists>msg. c = LoggerInfo msg) lg"
    and f5: "training s5 = training s4" "grad_enabled s5 = grad_enabled s4"
      "cnt_checkpoints s5 = cnt_checkpoints s4" "start_step s5 = start_step s4"
      "mstate s5 = mstate s4"
    by blast
  note c = checkpoints_saving_effect [OF cs]
  have t4: "trace s4 = trace s2 @ AppendTrainingStats (Training_loss l)
        # (if deepspeed_enable cfg then [EngineBackward l, EngineStep]
           else if accelerate_enable cfg
           then [ZeroGrad, AcceleratorBackward l, OptimizerStep, SchedulerStep]
           else [ZeroGrad, LossBackward l, OptimizerStep, SchedulerStep])"
    by (simp add: s4_def backward_pass_trace)
  have cnt5: "cnt_checkpoints s5 = cnt_checkpoints s"
    using f5 f2 by (simp add: s4_def s1_def)
  have tr': "trace s' = trace s @ Tokenizer (fst inputs) True # fw
        @ AppendTrainingStats (Training_loss l)
        # (if deepspeed_enable cfg then [EngineBackward l, EngineStep]
           else if accelerate_enable cfg
           then [ZeroGrad, AcceleratorBackward l, OptimizerStep, SchedulerStep]
           else [ZeroGrad, LossBackward l, OptimizerStep, SchedulerStep])
        @ lg
        @ (if cnt_checkpoints s mod checkpoint_steps cfg = 0
           then [SaveCheckpoint epoch i (epochs cfg) n_iter] else [])"
    using c lg(1) t4 fw(1) cnt5 by (simp add: s1_def)
  have g1: "grad_enabled s1 = grad_enabled s" by (simp add: s1_def)
  have rest: "cnt_checkpoints s' =
          (if cnt_checkpoints s mod checkpoint_steps cfg = 0 then 1 else cnt_checkpoints s + 1)"
     "training s' = training s" "grad_enabled s' = grad_enabled s"
     "start_step s' = start_step s" "checkpoint_steps cfg \<noteq> 0"
    using c f5 f2 cnt5 by (simp_all add: s4_def s1_def)
  have ms: "mstate s' =
          (if deepspeed_enable cfg then engine_step tr (engine_backward tr l (mstate s))
           else if accelerate_enable cfg
           then scheduler_step tr (optimizer_step tr
                  (accelerator_backward tr l (zero_grad tr (mstate s))))
           else scheduler_step tr (optimizer_step tr
                  (loss_backward tr l (zero_grad tr (mstate s)))))"
    using c f5(5) f2 by (simp add: s4_def s1_def backward_pass_def)
  show ?thesis
    using tr' fw(2,3) lg(2) rest ms unfolding g1 tok fst_conv snd_conv by blast
qed

lemma LoggerInfo_observations:
  assumes "list_all (\<lambda>c. \<exists>msg. c = LoggerInfo msg) lg"
  shows "marks lg = []" "updates lg = []" "backend_calls lg = []" "training_inputs lg = []"
    "validation_losses lg = []" "grad_forwards lg = []"
  using assms by (induction lg; auto)+

lemma forward_observations:
  assumes "list_all (\<lambda>c. (ds \<and> c = EngineForward ids am g) \<or> (\<not> ds \<and> c = ModelForward ids am g)
                         \<or> (\<exists>msg. c = Print msg)) fw"
  shows "marks fw = []" "updates fw = []" "training_inputs fw = []" "validation_losses fw = []"
  using assms by (induction fw; auto)+

lemma validation_call_observations:
  assumes "list_all validation_call t"
  shows "marks t = []" "updates t = []" "training_inputs t = []" "grad_forwards t = []"
proof -
  have 1: "validation_call c \<Longrightarrow> mark_of c = []" for c :: "'a call"
    by (cases c rule: validation_call.cases) auto
  have 2: "validation_call c \<Longrightarrow> \<not> is_update c" for c :: "'a call"
    by (cases c rule: validation_call.cases) auto
  have 4: "validation_call c \<Longrightarrow> training_input_of c = []" for c :: "'a call"
    by (cases c rule: validation_call.cases) auto
  have 5: "validation_call c \<Longrightarrow> \<not> with_grad c" for c :: "'a call"
    by (cases c rule: validation_call.cases) auto
  show "marks t = []" using assms by (induction t) (auto simp: 1)
  show "updates t = []" using assms by (induction t) (auto simp: 2)
  show "training_inputs t = []" using assms by (induction t) (auto simp: 4)
  show "grad_forwards t = []" using assms by (induction t) (auto simp: 5)
qed

lemma train_step_training_inputs:
  assumes "train_step tr cfg n_iter epoch i inputs s = (Inr u, s')"
  shows "training_inputs (trace s') = training_inputs (trace s) @ [fst inputs]"
proof -
  from train_step_success [OF assms] obtain fw l lg where
    t: "trace s' = trace s @ Tokenizer (fst inputs) True # fw
        @ AppendTrainingStats (Training_loss l)
        # (if deepspeed_enable cfg then [EngineBackward l, EngineStep]
           else if accelerate_enable cfg
           then [ZeroGrad, AcceleratorBackward l, OptimizerStep, SchedulerStep]
           else [ZeroGrad, LossBackward l, OptimizerStep, SchedulerStep])
        @ lg
        @ (if cnt_checkpoints s mod checkpoint_steps cfg = 0
           then [SaveCheckpoint epoch i (epochs cfg) n_iter] else [])"
    and fw: "list_all (\<lambda>c. (deepspeed_enable cfg \<and> c = EngineForward (fst (tokenizer tr (fst inputs) True))
                          (snd (tokenizer tr (fst inputs) True)) (grad_enabled s))
                   \<or> (\<not> deepspeed_enable cfg \<and> c = ModelForward (fst (tokenizer tr (fst inputs) True))
                          (snd (tokenizer tr (fst inputs) True)) (grad_enabled s))
                   \<or> (\<exists>msg. c = Print msg)) fw"
    and lg: "list_all (\<lambda>c. \<exists>msg. c = LoggerInfo msg) lg"
    by blast
  show ?thesis
    unfolding t
    by (simp add: forward_observations(3) [OF fw] LoggerInfo_observations(4) [OF lg])
qed

lemma train_step_marks:
  assumes "train_step tr cfg n_iter epoch i inputs s = (Inr u, s')"
  shows "marks (trace s') = marks (trace s) @
           (if cnt_checkpoints s mod checkpoint_steps cfg = 0 then [Batch, Save] else [Batch])"
proof -
  from train_step_success [OF assms] obtain fw l lg where
    t: "trace s' = trace s @ Tokenizer (fst inputs) True # fw
        @ AppendTrainingStats (Training_loss l)
        # (if deepspeed_enable cfg then [EngineBackward l, EngineStep]
           else if accelerate_enable cfg
           then [ZeroGrad, AcceleratorBackward l, OptimizerStep, SchedulerStep]
           else [ZeroGrad, LossBackward l, OptimizerStep, SchedulerStep])
        @ lg
        @ (if cnt_checkpoints s mod checkpoint_steps cfg = 0
           then [SaveCheckpoint epoch i (epochs cfg) n_iter] else [])"
    and fw: "list_all (\<lambda>c. (deepspeed_enable cfg \<and> c = EngineForward (fst (tokenizer tr (fst inputs) True))
                          (snd (tokenizer tr (fst inputs) True)) (grad_enabled s))
                   \<or> (\<not> deepspeed_enable cfg \<and> c = ModelForward (fst (tokenizer tr (fst inputs) True))
                          (snd (tokenizer tr (fst inputs) True)) (grad_enabled s))
                   \<or> (\<exists>msg. c = Print msg)) fw"
    and lg: "list_all (\<lambda>c. \<exists>msg. c = LoggerInfo msg) lg"
    by blast
  show ?thesis
    unfolding t
    by (simp add: forward_observations(1) [OF fw] LoggerInfo_observations(1) [OF lg])
qed

lemma train_step_fields:
  assumes "train_step tr cfg n_iter epoch i inputs s = (Inr u, s')"
  shows "start_step s' = start_step s" "grad_enabled s' = grad_enabled s"
    "training s' = training s" "checkpoint_steps cfg \<noteq> 0"
    "cnt_checkpoints s' =
       (if cnt_checkpoints s mod checkpoint_steps cfg = 0 then 1 else cnt_checkpoints s + 1)"
  using train_step_success [OF assms] by blast+

lemma cadence_add: "cadence n q (p1 + p2) = cadence n q p1 @ cadence n (q + p1) p2"
  by (induction p2) (simp_all add: add.assoc)

lemma cadence_Suc_left:
  "cadence n q (Suc p) =
     (if int (Suc q) mod n = 0 then [Batch, Save] else [Batch]) @ cadence n (Suc q) p"
  using cadence_add [of n q 1 p] by simp

lemma cnt_checkpoints_step:
  assumes "0 < n" and "cnt = 1 + int (q mod nat n)"
  shows "(cnt mod n = 0) = (int (Suc q) mod n = 0)"
    and "(if cnt mod n = 0 then 1 else cnt + 1) = 1 + int (Suc q mod nat n)"
proof -
  obtain m where m: "n = int m" "0 < m"
    using assms(1) by (metis nat_0_le of_nat_0_less_iff order_less_imp_le)
  have r: "q mod m < m" using m by simp
  have c: "cnt = int (Suc (q mod m))" using assms(2) m by simp
  have 1: "cnt mod n = int (Suc (q mod m) mod m)"
    unfolding c m by (simp only: zmod_int)
  have 2: "int (Suc q) mod n = int (Suc q mod m)"
    unfolding m by (simp only: zmod_int)
  have 3: "Suc q mod m = Suc (q mod m) mod m"
    by (simp add: mod_Suc_eq)
  show "(cnt mod n = 0) = (int (Suc q) mod n = 0)"
    using 1 2 3 by simp
  show "(if cnt mod n = 0 then 1 else cnt + 1) = 1 + int (Suc q mod nat n)"
  proof (cases "Suc (q mod m) = m")
    case True
    then have "Suc (q mod m) mod m = 0" by simp
    then show ?thesis using 1 3 m by simp
  next
    case False
    then have "Suc (q mod m) < m" using r by simp
    then have "Suc (q mod m) mod m = Suc (q mod m)" by simp
    then show ?thesis using 1 3 m c by simp
  qed
qed

lemma train_loop_skip:
  "train_loop tr cfg n_iter epoch (enumerate j bs) s =
     train_loop tr cfg n_iter epoch
       (enumerate (j + (nat (start_step s) - j)) (drop (nat (start_step s) - j) bs)) s"
proof (induction bs arbitrary: j)
  case Nil
  then show ?case by simp
next
  case (Cons b bs)
  show ?case
  proof (cases "int j < start_step s")
    case True
    then have d: "nat (start_step s) - j = Suc (nat (start_step s) - Suc j)" by linarith
    show ?thesis
      using True Cons [of "Suc j"] by (simp add: d)
  next
    case False
    then have "nat (start_step s) - j = 0" by linarith
    then show ?thesis by simp
  qed
qed

lemma train_loop_success:
  assumes "train_loop tr cfg n_iter epoch (enumerate j bs) s = (Inr u, s')"
  shows "start_step s' = start_step s
       \<and> training_inputs (trace s') =
           training_inputs (trace s) @ map fst (drop (nat (start_step s) - j) bs)
       \<and> (0 < checkpoint_steps cfg \<and> cnt_checkpoints s = 1 + int (q mod nat (checkpoint_steps cfg))
            \<longrightarrow> marks (trace s') =
                  marks (trace s) @ cadence (checkpoint_steps cfg) q
                    (length bs - (nat (start_step s) - j))
              \<and> cnt_checkpoints s' =
                  1 + int ((q + (length bs - (nat (start_step s) - j)))
                           mod nat (checkpoint_steps cfg)))"
  using assms
proof (induction bs arbitrary: j s q)
  case Nil
  then show ?case by simp
next
  case (Cons b bs)
  show ?case
  proof (cases "int j < start_step s")
    case True
    then have d: "nat (start_step s) - j = Suc (nat (start_step s) - Suc j)" by linarith
    from Cons.prems True
    have "train_loop tr cfg n_iter epoch (enumerate (Suc j) bs) s = (Inr u, s')" by simp
    from Cons.IH [OF this, of q] show ?thesis by (simp add: d)
  next
    case False
    then have d: "nat (start_step s) - j = 0" by linarith
    obtain r1 s1 where ts: "train_step tr cfg n_iter epoch j b s = (r1, s1)"
      by (cases "train_step tr cfg n_iter epoch j b s")
    from Cons.prems False ts have r1: "r1 = Inr ()"
      by (cases r1) auto
    from Cons.prems False ts r1
    have rest: "train_loop tr cfg n_iter epoch (enumerate (Suc j) bs) s1 = (Inr u, s')" by simp
    note ts' = ts [unfolded r1]
    note f = train_step_fields [OF ts']
    have d1: "nat (start_step s) - Suc j = 0" using False by linarith
    note IH = Cons.IH [OF rest, of "Suc q", unfolded f(1), unfolded d1]
    have ti: "training_inputs (trace s') =
           training_inputs (trace s) @ map fst (drop (nat (start_step s) - j) (b # bs))"
      using IH train_step_training_inputs [OF ts'] by (simp add: d)
    have mk: "marks (trace s') =
                  marks (trace s) @ cadence (checkpoint_steps cfg) q
                    (length (b # bs) - (nat (start_step s) - j))
              \<and> cnt_checkpoints s' =
                  1 + int ((q + (length (b # bs) - (nat (start_step s) - j)))
                           mod nat (checkpoint_steps cfg))"
      if n: "0 < checkpoint_steps cfg"
        and c: "cnt_checkpoints s = 1 + int (q mod nat (checkpoint_steps cfg))"
    proof -
      note cs = cnt_checkpoints_step [OF n c]
      have c1: "cnt_checkpoints s1 = 1 + int (Suc q mod nat (checkpoint_steps cfg))"
        using f(5) cs(2) by simp
      have m1: "marks (trace s1) = marks (trace s) @
           (if int (Suc q) mod checkpoint_steps cfg = 0 then [Batch, Save] else [Batch])"
        using train_step_marks [OF ts'] cs(1) by simp
      from IH n c1 have
        "marks (trace s') = marks (trace s1) @ cadence (checkpoint_steps cfg) (Suc q) (length bs)"
        "cnt_checkpoints s' = 1 + int ((Suc q + length bs) mod nat (checkpoint_steps cfg))"
        by simp_all
      then show ?thesis
        using m1 by (simp add: d cadence_Suc_left [of _ q "length bs"] del: cadence.simps)
    qed
    show ?thesis using IH ti mk by (simp add: f(1))
  qed
qed

lemma print_validation_progress_effect:
  "print_validation_progress cfg i s = (r, s') \<Longrightarrow>
     (\<exists>ps. trace s' = trace s @ ps \<and> list_all (\<lambda>c. \<exists>msg. c = LoggerInfo msg) ps)
     \<and> mstate s' = mstate s \<and> training s' = training s \<and> grad_enabled s' = grad_enabled s
     \<and> cnt_checkpoints s' = cnt_checkpoints s \<and> start_step s' = start_step s"
  by (auto simp: print_validation_progress_def split: if_splits)

lemma validation_step_effect:
  assumes "validation_step tr cfg i inputs s = (r, s')" and "\<not> grad_enabled s"
  shows "\<exists>t. trace s' = trace s @ t \<and> list_all validation_call t
           \<and> (r = Inr () \<longrightarrow> length (validation_losses t) = 1
                              \<and> length (model_forwards t) = 1)
           \<and> mstate s' = mstate s \<and> training s' = training s
           \<and> grad_enabled s' = grad_enabled s
           \<and> cnt_checkpoints s' = cnt_checkpoints s \<and> start_step s' = start_step s"
proof -
  define ids where "ids = fst (tokenizer tr (fst inputs) False)"
  define am where "am = snd (tokenizer tr (fst inputs) False)"
  define s1 where "s1 = call (Tokenizer (fst inputs) False) s"
  obtain r2 s2 where gr: "get_reward tr cfg ids am s1 = (r2, s2)"
    by (cases "get_reward tr cfg ids am s1")
  from get_reward_trace [OF gr] obtain ps where
    ps: "trace s2 = trace s1 @ ps"
      "list_all (\<lambda>c. c = ModelForward ids am (grad_enabled s1) \<or> (\<exists>msg. c = Print msg)) ps"
      "(\<exists>x. r2 = Inr x) \<longrightarrow> length (model_forwards ps) = 1"
    and f2: "mstate s2 = mstate s1" "training s2 = training s1"
      "grad_enabled s2 = grad_enabled s1" "cnt_checkpoints s2 = cnt_checkpoints s1"
      "start_step s2 = start_step s1"
    by blast
  have g1: "grad_enabled s1 = False" using assms(2) by (simp add: s1_def)
  have vps: "list_all validation_call ps"
    using ps(2) unfolding g1 by (induction ps) auto
  have vl: "validation_losses ps = []"
    using ps(2) by (induction ps) auto
  show ?thesis
  proof (cases r2)
    case (Inl e)
    with assms(1) gr have "r = Inl e" "s' = s2"
      by (auto simp: validation_step_def Let_def ids_def am_def s1_def)
    then show ?thesis
      using ps(1) vps vl f2 by (auto simp: s1_def)
  next
    case (Inr est)
    define l where "l = loss_function tr est (snd inputs)"
    define s3 where "s3 = call (AppendTrainingStats (Validation_loss l)) s2"
    from assms(1) gr Inr have pv: "print_validation_progress cfg i s3 = (r, s')"
      by (auto simp: validation_step_def Let_def ids_def am_def s1_def l_def s3_def)
    from print_validation_progress_effect [OF pv] obtain lg where
      lg: "trace s' = trace s3 @ lg" "list_all (\<lambda>c. \<exists>msg. c = LoggerInfo msg) lg"
      and f3: "mstate s' = mstate s3" "training s' = training s3"
        "grad_enabled s' = grad_enabled s3" "cnt_checkpoints s' = cnt_checkpoints s3"
        "start_step s' = start_step s3"
      by blast
    have lgl: "validation_losses lg = []"
      by (rule LoggerInfo_observations(5) [OF lg(2)])
    have lgv: "list_all validation_call lg"
      using lg(2) by (induction lg) auto
    have lgf: "model_forwards lg = []"
      using lg(2) by (induction lg) auto
    have t: "trace s' = trace s @ (Tokenizer (fst inputs) False # ps
               @ AppendTrainingStats (Validation_loss l) # lg)"
      using lg(1) ps(1) by (simp add: s3_def s1_def)
    have "list_all validation_call (Tokenizer (fst inputs) False # ps
               @ AppendTrainingStats (Validation_loss l) # lg)"
      using vps lgv by simp
    moreover have "length (validation_losses (Tokenizer (fst inputs) False # ps
               @ AppendTrainingStats (Validation_loss l) # lg)) = 1"
      using vl lgl by simp
    moreover have "length (model_forwards (Tokenizer (fst inputs) False # ps
               @ AppendTrainingStats (Validation_loss l) # lg)) = 1"
      using ps(3) Inr lgf by simp
    ultimately show ?thesis
      using t f3 f2 by (auto simp: s3_def s1_def)
  qed
qed

lemma validation_loop_effect:
  assumes "validation_loop tr cfg xs s = (r, s')" and "\<not> grad_enabled s"
  shows "\<exists>t. trace s' = trace s @ t \<and> list_all validation_call t
           \<and> (r = Inr () \<longrightarrow> length (validation_losses t) = length xs
                              \<and> length (model_forwards t) = length xs)
           \<and> mstate s' = mstate s \<and> training s' = training s
           \<and> grad_enabled s' = grad_enabled s
           \<and> cnt_checkpoints s' = cnt_checkpoints s \<and> start_step s' = start_step s"
  using assms
proof (induction xs arbitrary: s)
  case Nil
  then show ?case by simp
next
  case (Cons x xs)
  obtain i inputs where x: "x = (i, inputs)" by (cases x)
  obtain r1 s1 where vs: "validation_step tr cfg i inputs s = (r1, s1)"
    by (cases "validation_step tr cfg i inputs s")
  from validation_step_effect [OF vs Cons.prems(2)] obtain t1 where
    t1: "trace s1 = trace s @ t1" "list_all validation_call t1"
      "r1 = Inr () \<longrightarrow> length (validation_losses t1) = 1
                      \<and> length (model_forwards t1) = 1"
    and f1: "mstate s1 = mstate s" "training s1 = training s"
      "grad_enabled s1 = grad_enabled s" "cnt_checkpoints s1 = cnt_checkpoints s"
      "start_step s1 = start_step s"
    by blast
  show ?case
  proof (cases r1)
    case (Inl e)
    with Cons.prems(1) vs x have "r = Inl e" "s' = s1" by auto
    then show ?thesis using t1 f1 by auto
  next
    case (Inr u1)
    with Cons.prems(1) vs x have rest: "validation_loop tr cfg xs s1 = (r, s')" by auto
    have g1: "\<not> grad_enabled s1" using f1(3) Cons.prems(2) by simp
    from Cons.IH [OF rest g1] obtain t2 where
      t2: "trace s' = trace s1 @ t2" "list_all validation_call t2"
        "r = Inr () \<longrightarrow> length (validation_losses t2) = length xs
                       \<and> length (model_forwards t2) = length xs"
      and f2: "mstate s' = mstate s1" "training s' = training s1"
        "grad_enabled s' = grad_enabled s1" "cnt_checkpoints s' = cnt_checkpoints s1"
        "start_step s' = start_step s1"
      by blast
    have "trace s' = trace s @ (t1 @ t2)" using t1(1) t2(1) by simp
    moreover have "list_all validation_call (t1 @ t2)" using t1(2) t2(2) by simp
    moreover have "r = Inr () \<longrightarrow> length (validation_losses (t1 @ t2)) = length (x # xs)
                       \<and> length (model_forwards (t1 @ t2)) = length (x # xs)"
      using t1(3) t2(3) Inr by simp
    ultimately show ?thesis using f1 f2 by (metis (no_types))
  qed
qed

lemma validation_effect:
  assumes "validation tr cfg s = (r, s')"
  shows "\<exists>t. trace s' = trace s @ t \<and> list_all validation_call t
           \<and> (r = Inr () \<longrightarrow>
                 length (validation_losses t) =
                   (if validation_flag tr then length (validation_dataloader tr) else 0)
               \<and> length (model_forwards t) =
                   (if validation_flag tr then length (validation_dataloader tr) else 0))
           \<and> mstate s' = mstate s
           \<and> grad_enabled s' = grad_enabled s
           \<and> cnt_checkpoints s' = cnt_checkpoints s \<and> start_step s' = start_step s"
proof (cases "validation_flag tr")
  case False
  with assms show ?thesis by (simp add: validation_def)
next
  case True
  define s1 where "s1 = ((call ModelEval s)\<lparr>training := False\<rparr>)\<lparr>grad_enabled := False\<rparr>"
  obtain r2 s2 where
    vl: "validation_loop tr cfg (enumerate 0 (validation_dataloader tr)) s1 = (r2, s2)"
    by (cases "validation_loop tr cfg (enumerate 0 (validation_dataloader tr)) s1")
  from assms True vl have rs: "r = r2" "s' = s2\<lparr>grad_enabled := grad_enabled s\<rparr>"
    by (auto simp: validation_def no_grad_def s1_def)
  have g1: "\<not> grad_enabled s1" by (simp add: s1_def)
  from validation_loop_effect [OF vl g1] obtain t where
    t: "trace s2 = trace s1 @ t" "list_all validation_call t"
      "r2 = Inr () \<longrightarrow>
         length (validation_losses t) = length (enumerate 0 (validation_dataloader tr))
       \<and> length (model_forwards t) = length (enumerate 0 (validation_dataloader tr))"
    and f: "mstate s2 = mstate s1" "cnt_checkpoints s2 = cnt_checkpoints s1"
      "start_step s2 = start_step s1"
    by blast
  have "trace s' = trace s @ (ModelEval # t)" using t(1) rs by (simp add: s1_def)
  moreover have "list_all validation_call (ModelEval # t)" using t(2) by simp
  moreover have "r = Inr () \<longrightarrow>
                 length (validation_losses (ModelEval # t)) =
                   (if validation_flag tr then length (validation_dataloader tr) else 0)
               \<and> length (model_forwards (ModelEval # t)) =
                   (if validation_flag tr then length (validation_dataloader tr) else 0)"
    using t(3) rs True by simp
  moreover have "mstate s' = mstate s" "grad_enabled s' = grad_enabled s"
    "cnt_checkpoints s' = cnt_checkpoints s" "start_step s' = start_step s"
    using f rs by (simp_all add: s1_def)
  ultimately show ?thesis by blast
qed

lemma processed_batches_Suc:
  "processed_batches bs k (Suc n) = drop (nat k) bs @ processed_batches bs 0 n"
  by (cases n) (simp_all add: processed_batches_def)

lemma processed_batches_0 [simp]: "processed_batches bs k 0 = []"
  by (simp add: processed_batches_def)

lemma train_epoch_success:
  assumes "train_epoch tr cfg n_iter epoch s = (Inr u, s')"
  shows "start_step s' = 0
       \<and> training_inputs (trace s') =
           training_inputs (trace s) @ map fst (drop (nat (start_step s)) (train_dataloader tr))
       \<and> (0 < checkpoint_steps cfg \<and> cnt_checkpoints s = 1 + int (q mod nat (checkpoint_steps cfg))
            \<longrightarrow> marks (trace s') =
                  marks (trace s) @ cadence (checkpoint_steps cfg) q
                    (length (drop (nat (start_step s)) (train_dataloader tr)))
              \<and> cnt_checkpoints s' =
                  1 + int ((q + length (drop (nat (start_step s)) (train_dataloader tr)))
                           mod nat (checkpoint_steps cfg)))"
proof -
  define s0 where "s0 = (call ModelTrain s)\<lparr>training := True\<rparr>"
  obtain r1 s1 where
    tl: "train_loop tr cfg n_iter epoch (enumerate 0 (train_dataloader tr)) s0 = (r1, s1)"
    by (cases "train_loop tr cfg n_iter epoch (enumerate 0 (train_dataloader tr)) s0")
  from assms tl have r1: "r1 = Inr ()"
    by (cases r1) (auto simp: train_epoch_def s0_def)
  obtain r2 s2 where v: "validation tr cfg s1 = (r2, s2)"
    by (cases "validation tr cfg s1")
  from assms tl r1 v have r2: "r2 = Inr ()"
    by (cases r2) (auto simp: train_epoch_def s0_def)
  from assms tl r1 v r2 have s': "s' = s2\<lparr>start_step := 0\<rparr>"
    by (auto simp: train_epoch_def s0_def)
  from validation_effect [OF v] obtain t where
    t: "trace s2 = trace s1 @ t" "list_all validation_call t"
    and f2: "cnt_checkpoints s2 = cnt_checkpoints s1"
    by blast
  note vo = validation_call_observations [OF t(2)]
  note L = train_loop_success [OF tl [unfolded r1], of q]
  have s0: "start_step s0 = start_step s" "cnt_checkpoints s0 = cnt_checkpoints s"
    "training_inputs (trace s0) = training_inputs (trace s)"
    "marks (trace s0) = marks (trace s)"
    by (simp_all add: s0_def)
  show ?thesis
    using L unfolding s0 by (simp add: s' t(1) vo f2)
qed

lemma epoch_loop_success:
  assumes "epoch_loop tr cfg n_iter es s = (Inr u, s')"
  shows "training_inputs (trace s') =
           training_inputs (trace s)
             @ map fst (processed_batches (train_dataloader tr) (start_step s) (length es))
       \<and> (0 < checkpoint_steps cfg \<and> cnt_checkpoints s = 1 + int (q mod nat (checkpoint_steps cfg))
            \<longrightarrow> marks (trace s') =
                  marks (trace s) @ cadence (checkpoint_steps cfg) q
                    (length (processed_batches (train_dataloader tr) (start_step s) (length es)))
              \<and> cnt_checkpoints s' =
                  1 + int ((q + length (processed_batches (train_dataloader tr) (start_step s)
                                          (length es)))
                           mod nat (checkpoint_steps cfg)))"
  using assms
proof (induction es arbitrary: s q)
  case Nil
  then show ?case by simp
next
  case (Cons e es)
  obtain r1 s1 where te: "train_epoch tr cfg n_iter e s = (r1, s1)"
    by (cases "train_epoch tr cfg n_iter e s")
  from Cons.prems te have r1: "r1 = Inr ()"
    by (cases r1) auto
  from Cons.prems te r1 have rest: "epoch_loop tr cfg n_iter es s1 = (Inr u, s')"
    by simp
  define p1 where "p1 = length (drop (nat (start_step s)) (train_dataloader tr))"
  note E = train_epoch_success [OF te [unfolded r1], of q, folded p1_def]
  then have ss1: "start_step s1 = 0" by simp
  note IH = Cons.IH [OF rest, of "q + p1", unfolded ss1]
  have len: "length (processed_batches (train_dataloader tr) (start_step s) (length (e # es)))
           = p1 + length (processed_batches (train_dataloader tr) 0 (length es))"
    by (simp add: processed_batches_Suc p1_def)
  have ti: "training_inputs (trace s') =
           training_inputs (trace s)
             @ map fst (processed_batches (train_dataloader tr) (start_step s) (length (e # es)))"
    using E IH by (simp add: processed_batches_Suc)
  have mk: "marks (trace s') =
                  marks (trace s) @ cadence (checkpoint_steps cfg) q
                    (length (processed_batches (train_dataloader tr) (start_step s)
                       (length (e # es))))
              \<and> cnt_checkpoints s' =
                  1 + int ((q + length (processed_batches (train_dataloader tr) (start_step s)
                                          (length (e # es))))
                           mod nat (checkpoint_steps cfg))"
    if n: "0 < checkpoint_steps cfg"
      and c: "cnt_checkpoints s = 1 + int (q mod nat (checkpoint_steps cfg))"
  proof -
    from E n c have m1: "marks (trace s1) = marks (trace s) @ cadence (checkpoint_steps cfg) q p1"
      and c1: "cnt_checkpoints s1 = 1 + int ((q + p1) mod nat (checkpoint_steps cfg))"
      by simp_all
    from IH n c1 have
      "marks (trace s') = marks (trace s1) @ cadence (checkpoint_steps cfg) (q + p1)
          (length (processed_batches (train_dataloader tr) 0 (length es)))"
      "cnt_checkpoints s' = 1 + int ((q + p1 +
          length (processed_batches (train_dataloader tr) 0 (length es)))
            mod nat (checkpoint_steps cfg))"
      by simp_all
    then show ?thesis
      unfolding len using m1 by (simp add: cadence_add add.assoc)
  qed
  show ?case using ti mk by blast
qed

lemma train_success:
  assumes "train tr cfg s = (Inr u, s')"
      and "load_checkpoint tr (mstate s) = ((start_epoch, start_step0), m)"
  shows "\<exists>n_iter s2 s3.
           epoch_loop tr cfg n_iter [start_epoch..epochs cfg - 1] s2 = (Inr (), s3)
         \<and> trace s2 = trace s @ [LoggerSuccess ''Start Training the Reward Model'', SetupLogs,
                                   LoadCheckpoint]
         \<and> cnt_checkpoints s2 = 1 \<and> start_step s2 = start_step0
         \<and> trace s' = trace s3 @ [ModelSave, LoggerSuccess ''Training is finished'']"
proof -
  define bs where "bs = (if deepspeed_enable cfg then train_dataloader_batch_size tr
                         else batch_size cfg)"
  from assms(1) obtain n_iter where n: "int_truediv (int (train_dataset_len tr)) bs = Inr n_iter"
    by (cases "int_truediv (int (train_dataset_len tr)) bs")
      (auto simp: train_def Let_def bs_def)
  define s2 where "s2 = (call LoadCheckpoint (call SetupLogs
      (call (LoggerSuccess ''Start Training the Reward Model'') s)))
        \<lparr>mstate := m, cnt_checkpoints := 1, start_step := start_step0\<rparr>"
  obtain r3 s3 where el: "epoch_loop tr cfg n_iter [start_epoch..epochs cfg - 1] s2 = (r3, s3)"
    by (cases "epoch_loop tr cfg n_iter [start_epoch..epochs cfg - 1] s2")
  from assms n el have r3: "r3 = Inr ()"
    by (cases r3) (auto simp: train_def Let_def bs_def [symmetric] s2_def)
  from assms n el r3 have "s' = call (LoggerSuccess ''Training is finished'') (call ModelSave s3)"
    by (auto simp: train_def Let_def bs_def [symmetric] s2_def)
  then have "trace s' = trace s3 @ [ModelSave, LoggerSuccess ''Training is finished'']"
    by simp
  moreover have "trace s2 = trace s @ [LoggerSuccess ''Start Training the Reward Model'',
      SetupLogs, LoadCheckpoint]" "cnt_checkpoints s2 = 1" "start_step s2 = start_step0"
    by (simp_all add: s2_def)
  ultimately show ?thesis using el r3 by blast
qed

lemma stub_run:
  "fst (train stub_trainer (stub_config\<lparr>max_sequence_length := 8\<rparr>) stub_state) = Inr ()"
  by code_simp

section \<open>Properties of RewardModel\<close>

text \<open>
  C1. For a batch whose sequence length does not exceed
  \<open>max_sequence_length\<close>, and on which \<open>forward\<close> returns the rewards,
  \<open>get_reward\<close> is \<open>forward\<close> indexed at the last sequence position
  (\<open>[:, -1]\<close>), in the state \<open>forward\<close> leaves. Where there is a last
  position and \<open>forward\<close> returns one row of rewards per example, the result
  is a vector with one entry per example of the batch, the entry of example
  \<open>i\<close> being the reward of row \<open>i\<close> at the last position.
\<close>

theorem get_reward_last_position:
  assumes "int (dim1 output_sequence) \<le> max_sequence_length cfg"
      and "forward tr cfg output_sequence output_sequence_mask s = (Inr rewards, s')"
  shows "get_reward tr cfg output_sequence output_sequence_mask s = (last_column rewards, s')
       \<and> (0 < dim1 rewards \<and> length (rows rewards) = length (rows output_sequence) \<longrightarrow>
            (\<exists>r. get_reward tr cfg output_sequence output_sequence_mask s = (Inr r, s')
               \<and> length r = length (rows output_sequence)
               \<and> (\<forall>i < length (rows output_sequence).
                     r ! i = rows rewards ! i ! (dim1 rewards - 1))))"
  using assms by (simp add: get_reward_def last_column_def)

theorem get_reward_last_position_witness:
  "int (dim1 stub_ids) \<le> max_sequence_length stub_config
   \<and> forward stub_trainer stub_config stub_ids stub_mask stub_state =
       (Inr \<lparr>dim1 = 2, rows = [[1, 2], [3, 4]]\<rparr>,
        call (ModelForward stub_ids stub_mask True) stub_state)
   \<and> 0 < dim1 \<lparr>dim1 = 2, rows = [[1, 2], [3, 4 :: int]]\<rparr>
   \<and> length (rows \<lparr>dim1 = 2, rows = [[1, 2], [3, 4 :: int]]\<rparr>) = length (rows stub_ids)
   \<and> get_reward stub_trainer stub_config stub_ids stub_mask stub_state =
       (Inr [2, 4], call (ModelForward stub_ids stub_mask True) stub_state)"
proof -
  have h1: "int (dim1 stub_ids) \<le> max_sequence_length stub_config"
    by (simp add: stub_ids_def stub_config_def)
  have h2: "forward stub_trainer stub_config stub_ids stub_mask stub_state =
       (Inr \<lparr>dim1 = 2, rows = [[1, 2], [3, 4]]\<rparr>,
        call (ModelForward stub_ids stub_mask True) stub_state)"
    by (simp add: forward_def stub_trainer_def stub_config_def stub_state_def
        stub_ids_def map_tensor2_def)
  show ?thesis
    using h1 h2 get_reward_last_position [OF h1 h2]
    by (simp add: last_column_def stub_ids_def)
qed

text \<open>
  C2. For an input whose sequence length (second dimension) is greater than
  \<open>max_sequence_length\<close>, \<open>get_reward\<close> raises the length validation error
  and leaves the state as it was: the trace of calls is unchanged, so the
  base model has not been invoked.
\<close>

theorem get_reward_too_long:
  assumes "max_sequence_length cfg < int (dim1 output_sequence)"
  shows "get_reward tr cfg output_sequence output_sequence_mask s =
           (Inl (ValueError (dim1 output_sequence) (max_sequence_length cfg)), s)"
  using assms by (simp add: get_reward_def)

theorem get_reward_too_long_witness:
  "max_sequence_length stub_config < int (dim1 stub_long_ids)
   \<and> get_reward stub_trainer stub_config stub_long_ids stub_long_mask stub_state =
       (Inl (ValueError 3 2), stub_state)"
proof -
  have h: "max_sequence_length stub_config < int (dim1 stub_long_ids)"
    by (simp add: stub_config_def stub_long_ids_def)
  show ?thesis
    using h get_reward_too_long [OF h, of stub_trainer stub_long_mask stub_state]
    by (simp add: stub_config_def stub_long_ids_def)
qed

section \<open>Properties of RewardDataset\<close>

text \<open>
  C9. For an index in range (Python's range, from \<open>- len\<close> up to \<open>len - 1\<close>),
  \<open>__getitem__\<close> returns the pair of the concatenation of the entry's
  \<open>user_input\<close> and \<open>completion\<close>, with nothing in between, and of the
  entry's score coerced to a float; a failure of the coercion is propagated.
\<close>

theorem getitem_in_range:
  assumes "- int (length data) \<le> idx" and "idx < int (length data)"
  shows "getitem py_float data idx =
           (case py_float (score (data ! nat (idx mod int (length data)))) of
              Inl err \<Rightarrow> Inl err
            | Inr sc \<Rightarrow> Inr (user_input (data ! nat (idx mod int (length data)))
                              @ completion (data ! nat (idx mod int (length data))), sc))"
proof (cases "idx < 0")
  case True
  then have "idx mod int (length data) = int (length data) + idx"
    using assms by (smt (verit) mod_add_self1 mod_pos_pos_trivial)
  then show ?thesis
    using True assms by (simp add: getitem_def Let_def split: sum.splits)
next
  case False
  then have "idx mod int (length data) = idx"
    using assms by simp
  then show ?thesis
    using False assms by (simp add: getitem_def Let_def split: sum.splits)
qed

theorem getitem_in_range_witness:
  "- int (length stub_data) \<le> - 1 \<and> - 1 < int (length stub_data)
   \<and> getitem stub_float stub_data (- 1) = Inr (''Q: 2+2?five'', 0)"
proof -
  have h1: "- int (length stub_data) \<le> - 1" by (simp add: stub_data_def)
  have h2: "- 1 < int (length stub_data)" by (simp add: stub_data_def)
  show ?thesis
    using h1 h2 getitem_in_range [OF h1 h2, of stub_float]
    by (simp add: stub_data_def stub_float_def)
qed

section \<open>Properties of the dataloader\<close>

lemma ceil_div_step:
  assumes "0 < b" "0 < n"
  shows "(n + b - 1) div b = Suc ((n - b + b - 1) div b)"
proof -
  have step: "(m + b) div b = Suc (m div b)" for m :: nat
    using assms(1) div_add_self2 [of b m] by linarith
  show ?thesis
  proof (cases "b \<le> n")
    case True
    then have "n + b - 1 = (n - b + b - 1) + b" using assms by simp
    then show ?thesis using step [of "n - b + b - 1"] by presburger
  next
    case False
    then have 1: "n - b + b - 1 = b - 1" by simp
    have 2: "n + b - 1 = (n - 1) + b" using assms by simp
    have "(n - 1) div b = 0" "(b - 1) div b = 0" using False assms by simp_all
    then show ?thesis using step [of "n - 1"] 1 2 by presburger
  qed
qed

lemma batch_sampler_Nil: "batch_sampler b [] = []"
  by (subst batch_sampler.simps) simp

lemma batch_sampler_step:
  "0 < b \<Longrightarrow> xs \<noteq> [] \<Longrightarrow>
     batch_sampler b xs = take b xs # batch_sampler b (drop b xs)"
  by (subst batch_sampler.simps) simp

lemma batch_sampler_eq_Nil: "0 < b \<Longrightarrow> batch_sampler b xs = [] \<longleftrightarrow> xs = []"
  by (cases "xs = []") (simp_all add: batch_sampler_Nil batch_sampler_step)

lemma concat_batch_sampler: "0 < b \<Longrightarrow> concat (batch_sampler b xs) = xs"
proof (induction b xs rule: batch_sampler.induct)
  case (1 b xs)
  show ?case
  proof (cases "xs = []")
    case True
    then show ?thesis by (simp add: batch_sampler_Nil)
  next
    case False
    then show ?thesis using 1 by (simp add: batch_sampler_step)
  qed
qed

lemma length_batch_sampler:
  "0 < b \<Longrightarrow> length (batch_sampler b xs) = (length xs + b - 1) div b"
proof (induction b xs rule: batch_sampler.induct)
  case (1 b xs)
  show ?case
  proof (cases "xs = []")
    case True
    with 1 show ?thesis by (simp add: batch_sampler_Nil)
  next
    case False
    with 1 have IH: "length (batch_sampler b (drop b xs)) = (length (drop b xs) + b - 1) div b"
      by simp
    have "length (batch_sampler b xs) = Suc ((length xs - b + b - 1) div b)"
      using False 1(2) IH by (simp add: batch_sampler_step)
    also have "\<dots> = (length xs + b - 1) div b"
      using ceil_div_step [of b "length xs"] False 1(2) by simp
    finally show ?thesis .
  qed
qed

lemma butlast_batch_sampler:
  "0 < b \<Longrightarrow> bt \<in> set (butlast (batch_sampler b xs)) \<Longrightarrow> length bt = b"
proof (induction b xs arbitrary: bt rule: batch_sampler.induct)
  case (1 b xs)
  show ?case
  proof (cases "xs = []")
    case True
    with 1(3) show ?thesis by (simp add: batch_sampler_Nil)
  next
    case False
    have step: "batch_sampler b xs = take b xs # batch_sampler b (drop b xs)"
      using False 1(2) by (rule batch_sampler_step [rotated])
    show ?thesis
    proof (cases "drop b xs = []")
      case True
      then have "batch_sampler b (drop b xs) = []" by (simp add: batch_sampler_Nil)
      with 1(3) step show ?thesis by simp
    next
      case F: False
      then have len: "b \<le> length xs" by simp
      have ne: "batch_sampler b (drop b xs) \<noteq> []"
        using F 1(2) by (simp add: batch_sampler_eq_Nil)
      from 1(3) step ne
      have "bt = take b xs \<or> bt \<in> set (butlast (batch_sampler b (drop b xs)))"
        by simp
      then show ?thesis
      proof
        assume "bt = take b xs"
        then show ?thesis using len by simp
      next
        assume "bt \<in> set (butlast (batch_sampler b (drop b xs)))"
        then show ?thesis using 1(1) False 1(2) by blast
      qed
    qed
  qed
qed

lemma last_batch_sampler:
  "0 < b \<Longrightarrow> xs \<noteq> [] \<Longrightarrow>
     length (last (batch_sampler b xs)) = (if length xs mod b = 0 then b else length xs mod b)"
proof (induction b xs rule: batch_sampler.induct)
  case (1 b xs)
  have step: "batch_sampler b xs = take b xs # batch_sampler b (drop b xs)"
    using 1(2,3) by (rule batch_sampler_step)
  show ?case
  proof (cases "drop b xs = []")
    case True
    then have le: "length xs \<le> b" by simp
    have "batch_sampler b (drop b xs) = []"
      using True by (simp add: batch_sampler_Nil)
    then have "last (batch_sampler b xs) = take b xs"
      using step by simp
    moreover have "length xs \<noteq> 0" using 1(3) by simp
    ultimately show ?thesis using le 1(2)
      by (cases "length xs = b") auto
  next
    case False
    then have lt: "b < length xs" by simp
    have ne: "batch_sampler b (drop b xs) \<noteq> []"
      using False 1(2) by (simp add: batch_sampler_eq_Nil)
    have "last (batch_sampler b xs) = last (batch_sampler b (drop b xs))"
      using step ne by simp
    moreover have "length (last (batch_sampler b (drop b xs))) =
        (if length (drop b xs) mod b = 0 then b else length (drop b xs) mod b)"
      using 1(1) 1(2,3) False by simp
    moreover have "(length xs - b) mod b = length xs mod b"
      using lt by (simp add: le_mod_geq)
    ultimately show ?thesis by simp
  qed
qed

text \<open>
  C8. For a dataset of size \<open>M\<close> and a batch size \<open>B > 0\<close>, the dataloader
  yields \<open>ceil(M / B)\<close> batches, that is \<open>(M + B - 1) div B\<close>; their
  concatenation is the dataset, in store order; every batch but the last has
  size \<open>B\<close>; the last has size \<open>M mod B\<close> when \<open>B\<close> does not divide \<open>M\<close>
  and \<open>B\<close> otherwise; the sizes sum to \<open>M\<close>.
\<close>

theorem DataLoader_partition:
  assumes "0 < B"
  shows "\<exists>bs. DataLoader dataset B = Inr bs
           \<and> length bs = (length dataset + nat B - 1) div nat B
           \<and> concat bs = dataset
           \<and> (\<forall>bt \<in> set (butlast bs). length bt = nat B)
           \<and> (dataset \<noteq> [] \<longrightarrow>
                length (last bs) = (if length dataset mod nat B = 0 then nat B
                                    else length dataset mod nat B))
           \<and> sum_list (map length bs) = length dataset"
proof -
  define bs where "bs = batch_sampler (nat B) dataset"
  have b: "0 < nat B" using assms by simp
  have 1: "DataLoader dataset B = Inr bs"
    using assms by (simp add: DataLoader_def bs_def)
  have 2: "length bs = (length dataset + nat B - 1) div nat B"
    unfolding bs_def by (rule length_batch_sampler [OF b])
  have 3: "concat bs = dataset"
    unfolding bs_def by (rule concat_batch_sampler [OF b])
  have 4: "\<forall>bt \<in> set (butlast bs). length bt = nat B"
    unfolding bs_def using butlast_batch_sampler [OF b] by blast
  have 5: "dataset \<noteq> [] \<longrightarrow>
             length (last bs) = (if length dataset mod nat B = 0 then nat B
                                 else length dataset mod nat B)"
    unfolding bs_def using last_batch_sampler [OF b] by blast
  have "sum_list (map length bs) = length (concat bs)"
    by (simp add: length_concat)
  then have 6: "sum_list (map length bs) = length dataset"
    using 3 by simp
  from 1 2 3 4 5 6 show ?thesis by blast
qed

theorem DataLoader_partition_witness:
  "(0 :: int) < 2 \<and> [10, 20, 30, 40, 50 :: nat] \<noteq> []
   \<and> DataLoader [10, 20, 30, 40, 50 :: nat] 2 = Inr [[10, 20], [30, 40], [50]]
   \<and> length [[10, 20], [30, 40], [50 :: nat]] = (5 + 2 - 1) div 2
   \<and> length (last [[10, 20], [30, 40], [50 :: nat]]) = 5 mod 2"
proof -
  have h: "(0 :: int) < 2" by simp
  have e: "DataLoader [10, 20, 30, 40, 50 :: nat] 2 = Inr [[10, 20], [30, 40], [50]]"
    by (simp add: DataLoader_def batch_sampler_Nil batch_sampler_step)
  show ?thesis
    using h e DataLoader_partition [OF h, of "[10, 20, 30, 40, 50 :: nat]"]
    by simp
qed

section \<open>Properties of RewardTrainer.train\<close>

text \<open>
  C3. A run of \<open>train\<close> that resumes at \<open>(start_epoch, start_step)\<close> and
  completes gives to the training tokenizer exactly the batches of the first
  epoch from index \<open>start_step\<close> on, followed by all batches of every later
  epoch, in order. Within an epoch, the loop over all batches is the loop over
  the batches from index \<open>start_step\<close> on: a skipped batch has no effect on
  the result or on the state. An epoch that completes leaves \<open>start_step\<close>
  at \<open>0\<close>.
\<close>

theorem resume_skips_completed_steps:
  assumes "train tr cfg s = (Inr u, s')"
      and "load_checkpoint tr (mstate s) = ((start_epoch, start_step0), m)"
  shows "training_inputs (trace s') =
           training_inputs (trace s)
             @ map fst (processed_batches (train_dataloader tr) start_step0
                          (nat (epochs cfg - start_epoch)))
       \<and> train_loop tr cfg n_iter epoch (enumerate 0 (train_dataloader tr)) s1 =
           train_loop tr cfg n_iter epoch
             (enumerate (nat (start_step s1)) (drop (nat (start_step s1)) (train_dataloader tr))) s1
       \<and> (train_epoch tr cfg n_iter epoch s1 = (Inr u1, s2) \<longrightarrow> start_step s2 = 0)"
proof -
  from train_success [OF assms] obtain n s2 s3 where
    el: "epoch_loop tr cfg n [start_epoch..epochs cfg - 1] s2 = (Inr (), s3)"
    and t2: "trace s2 = trace s @ [LoggerSuccess ''Start Training the Reward Model'', SetupLogs,
                                   LoadCheckpoint]"
    and f2: "start_step s2 = start_step0"
    and t': "trace s' = trace s3 @ [ModelSave, LoggerSuccess ''Training is finished'']"
    by blast
  have len: "length [start_epoch..epochs cfg - 1] = nat (epochs cfg - start_epoch)"
    by simp
  from epoch_loop_success [OF el, of 0]
  have "training_inputs (trace s3) =
           training_inputs (trace s2)
             @ map fst (processed_batches (train_dataloader tr) start_step0
                          (nat (epochs cfg - start_epoch)))"
    unfolding len f2 by simp
  then have 1: "training_inputs (trace s') =
           training_inputs (trace s)
             @ map fst (processed_batches (train_dataloader tr) start_step0
                          (nat (epochs cfg - start_epoch)))"
    by (simp add: t' t2)
  have 2: "train_loop tr cfg n_iter epoch (enumerate 0 (train_dataloader tr)) s1 =
           train_loop tr cfg n_iter epoch
             (enumerate (nat (start_step s1)) (drop (nat (start_step s1)) (train_dataloader tr))) s1"
    using train_loop_skip [of tr cfg n_iter epoch 0 "train_dataloader tr" s1] by simp
  have 3: "train_epoch tr cfg n_iter epoch s1 = (Inr u1, s2) \<longrightarrow> start_step s2 = 0" for s2
    using train_epoch_success by blast
  from 1 2 3 show ?thesis by blast
qed

lemma stub_epoch:
  "fst (train_epoch stub_trainer (stub_config\<lparr>max_sequence_length := 8\<rparr>) 1 0
          (stub_state\<lparr>cnt_checkpoints := 1, start_step := 1\<rparr>)) = Inr ()"
  by code_simp

theorem resume_skips_completed_steps_witness:
  "train stub_trainer (stub_config\<lparr>max_sequence_length := 8\<rparr>) stub_state =
     (Inr (), snd (train stub_trainer (stub_config\<lparr>max_sequence_length := 8\<rparr>) stub_state))
   \<and> load_checkpoint stub_trainer (mstate stub_state) = ((0, 1), 0)
   \<and> training_inputs
        (trace (snd (train stub_trainer (stub_config\<lparr>max_sequence_length := 8\<rparr>) stub_state))) =
      [[''abc''], [''ab'', ''c''], [''abc'']]
   \<and> train_epoch stub_trainer (stub_config\<lparr>max_sequence_length := 8\<rparr>) 1 0
          (stub_state\<lparr>cnt_checkpoints := 1, start_step := 1\<rparr>) =
        (Inr (), snd (train_epoch stub_trainer (stub_config\<lparr>max_sequence_length := 8\<rparr>) 1 0
          (stub_state\<lparr>cnt_checkpoints := 1, start_step := 1\<rparr>)))
   \<and> start_step (snd (train_epoch stub_trainer (stub_config\<lparr>max_sequence_length := 8\<rparr>) 1 0
          (stub_state\<lparr>cnt_checkpoints := 1, start_step := 1\<rparr>))) = 0"
proof -
  have h1: "train stub_trainer (stub_config\<lparr>max_sequence_length := 8\<rparr>) stub_state =
     (Inr (), snd (train stub_trainer (stub_config\<lparr>max_sequence_length := 8\<rparr>) stub_state))"
    using stub_run by (simp add: prod_eq_iff)
  have h2: "load_checkpoint stub_trainer (mstate stub_state) = ((0, 1), 0)"
    by (simp add: stub_trainer_def stub_state_def)
  have h3: "train_epoch stub_trainer (stub_config\<lparr>max_sequence_length := 8\<rparr>) 1 0
          (stub_state\<lparr>cnt_checkpoints := 1, start_step := 1\<rparr>) =
        (Inr (), snd (train_epoch stub_trainer (stub_config\<lparr>max_sequence_length := 8\<rparr>) 1 0
          (stub_state\<lparr>cnt_checkpoints := 1, start_step := 1\<rparr>)))"
    using stub_epoch by (simp add: prod_eq_iff)
  have e: "epochs (stub_config\<lparr>max_sequence_length := 8\<rparr>) = 2"
    "train_dataloader stub_trainer = [([''ab'', ''c''], [1, 0]), ([''abc''], [1])]"
    "trace stub_state = []"
    by (simp_all add: stub_config_def stub_trainer_def stub_state_def)
  have p: "processed_batches [([''ab'', ''c''], [1, 0 :: int]), ([''abc''], [1])] 1 (nat (2 - 0)) =
             [([''abc''], [1]), ([''ab'', ''c''], [1, 0]), ([''abc''], [1])]"
    by (simp add: processed_batches_def)
  note T = resume_skips_completed_steps [OF h1 h2,
      where n_iter = 1 and epoch = 0
        and ?s1.0 = "stub_state\<lparr>cnt_checkpoints := 1, start_step := 1\<rparr>" and ?u1.0 = "()"
        and ?s2.0 = "snd (train_epoch stub_trainer (stub_config\<lparr>max_sequence_length := 8\<rparr>) 1 0
          (stub_state\<lparr>cnt_checkpoints := 1, start_step := 1\<rparr>))"]
  from T have "training_inputs
        (trace (snd (train stub_trainer (stub_config\<lparr>max_sequence_length := 8\<rparr>) stub_state))) =
      [[''abc''], [''ab'', ''c''], [''abc'']]"
    unfolding e p by simp
  moreover from T h3
  have "start_step (snd (train_epoch stub_trainer (stub_config\<lparr>max_sequence_length := 8\<rparr>) 1 0
          (stub_state\<lparr>cnt_checkpoints := 1, start_step := 1\<rparr>))) = 0"
    by blast
  ultimately show ?thesis using h1 h2 h3 by blast
qed

text \<open>
  C4. For a positive \<open>checkpoint_steps\<close>, a run of \<open>train\<close> that completes
  records, for the \<open>p\<close> batches it processes over all its epochs, one training
  loss per batch, followed by a call of \<open>save_checkpoint\<close> exactly when the
  number of the batch, counted from the start of the run across epochs, is a
  multiple of \<open>checkpoint_steps\<close>; after the last epoch comes one call of
  \<open>model.save\<close>, and no other.
\<close>

theorem checkpoint_cadence:
  assumes "train tr cfg s = (Inr u, s')"
      and "load_checkpoint tr (mstate s) = ((start_epoch, start_step0), m)"
      and "0 < checkpoint_steps cfg"
  shows "marks (trace s') =
           marks (trace s)
             @ cadence (checkpoint_steps cfg) 0
                 (length (processed_batches (train_dataloader tr) start_step0
                            (nat (epochs cfg - start_epoch))))
             @ [Final]"
proof -
  from train_success [OF assms(1,2)] obtain n s2 s3 where
    el: "epoch_loop tr cfg n [start_epoch..epochs cfg - 1] s2 = (Inr (), s3)"
    and t2: "trace s2 = trace s @ [LoggerSuccess ''Start Training the Reward Model'', SetupLogs,
                                   LoadCheckpoint]"
    and f2: "cnt_checkpoints s2 = 1" "start_step s2 = start_step0"
    and t': "trace s' = trace s3 @ [ModelSave, LoggerSuccess ''Training is finished'']"
    by blast
  have len: "length [start_epoch..epochs cfg - 1] = nat (epochs cfg - start_epoch)"
    by simp
  have c0: "cnt_checkpoints s2 = 1 + int (0 mod nat (checkpoint_steps cfg))"
    using f2 by simp
  from epoch_loop_success [OF el, of 0] assms(3) c0
  have "marks (trace s3) =
           marks (trace s2)
             @ cadence (checkpoint_steps cfg) 0
                 (length (processed_batches (train_dataloader tr) start_step0
                            (nat (epochs cfg - start_epoch))))"
    unfolding len f2 by blast
  then show ?thesis
    by (simp add: t' t2)
qed

theorem checkpoint_cadence_witness:
  "train stub_trainer (stub_config\<lparr>max_sequence_length := 8\<rparr>) stub_state =
     (Inr (), snd (train stub_trainer (stub_config\<lparr>max_sequence_length := 8\<rparr>) stub_state))
   \<and> load_checkpoint stub_trainer (mstate stub_state) = ((0, 1), 0)
   \<and> 0 < checkpoint_steps (stub_config\<lparr>max_sequence_length := 8\<rparr>)
   \<and> marks
        (trace (snd (train stub_trainer (stub_config\<lparr>max_sequence_length := 8\<rparr>) stub_state))) =
      [Batch, Batch, Save, Batch, Final]"
proof -
  have h1: "train stub_trainer (stub_config\<lparr>max_sequence_length := 8\<rparr>) stub_state =
     (Inr (), snd (train stub_trainer (stub_config\<lparr>max_sequence_length := 8\<rparr>) stub_state))"
    using stub_run by (simp add: prod_eq_iff)
  have h2: "load_checkpoint stub_trainer (mstate stub_state) = ((0, 1), 0)"
    by (simp add: stub_trainer_def stub_state_def)
  have h3: "0 < checkpoint_steps (stub_config\<lparr>max_sequence_length := 8\<rparr>)"
    by (simp add: stub_config_def)
  have e: "epochs (stub_config\<lparr>max_sequence_length := 8\<rparr>) = 2"
    "checkpoint_steps (stub_config\<lparr>max_sequence_length := 8\<rparr>) = 2"
    "train_dataloader stub_trainer = [([''ab'', ''c''], [1, 0]), ([''abc''], [1])]"
    "trace stub_state = []"
    by (simp_all add: stub_config_def stub_trainer_def stub_state_def)
  have p: "length (processed_batches [([''ab'', ''c''], [1, 0 :: int]), ([''abc''], [1])] 1
              (nat (2 - 0))) = Suc (Suc (Suc 0))"
    by (simp add: processed_batches_def)
  from checkpoint_cadence [OF h1 h2 h3]
  have "marks
        (trace (snd (train stub_trainer (stub_config\<lparr>max_sequence_length := 8\<rparr>) stub_state))) =
      [Batch, Batch, Save, Batch, Final]"
    unfolding e p by simp
  with h1 h2 h3 show ?thesis by blast
qed

text \<open>
  C5. Every run of the validation phase, whether it completes or raises,
  makes no call that updates the weights, the optimizer or the scheduler,
  records no training loss and saves no checkpoint, runs no forward call with
  the gradient mode enabled, and leaves the weights, optimizer and scheduler
  state and the checkpoint counter as they were; the gradient mode is
  restored. A phase that completes has recorded one validation loss and made
  one forward call of the model per validation batch.
\<close>

theorem validation_leaves_training_state:
  assumes "validation tr cfg s = (r, s')"
  shows "\<exists>t. trace s' = trace s @ t
           \<and> updates t = [] \<and> marks t = [] \<and> grad_forwards t = []
           \<and> (r = Inr () \<and> validation_flag tr \<longrightarrow>
                 length (validation_losses t) = length (validation_dataloader tr)
               \<and> length (model_forwards t) = length (validation_dataloader tr))
           \<and> mstate s' = mstate s
           \<and> cnt_checkpoints s' = cnt_checkpoints s
           \<and> grad_enabled s' = grad_enabled s"
proof -
  from validation_effect [OF assms] obtain t where
    t: "trace s' = trace s @ t" "list_all validation_call t"
      "r = Inr () \<longrightarrow>
                 length (validation_losses t) =
                   (if validation_flag tr then length (validation_dataloader tr) else 0)
               \<and> length (model_forwards t) =
                   (if validation_flag tr then length (validation_dataloader tr) else 0)"
    and f: "mstate s' = mstate s" "grad_enabled s' = grad_enabled s"
      "cnt_checkpoints s' = cnt_checkpoints s"
    by blast
  note vo = validation_call_observations [OF t(2)]
  have "r = Inr () \<and> validation_flag tr \<longrightarrow>
                 length (validation_losses t) = length (validation_dataloader tr)
               \<and> length (model_forwards t) = length (validation_dataloader tr)"
    using t(3) by simp
  with t(1) vo(1,2,4) f show ?thesis by blast
qed

theorem validation_leaves_training_state_witness:
  "validation stub_trainer stub_config stub_state =
     (Inr (), stub_state\<lparr>training := False,
        trace := [ModelEval, Tokenizer [''b''] False,
                  ModelForward \<lparr>dim1 = 1, rows = [[98]]\<rparr> \<lparr>dim1 = 1, rows = [[1]]\<rparr> False,
                  AppendTrainingStats (Validation_loss 9604),
                  LoggerInfo ''Validation Loss'']\<rparr>)
   \<and> validation_flag stub_trainer
   \<and> length (validation_dataloader stub_trainer) = 1
   \<and> updates [ModelEval, Tokenizer [''b''] False,
                  ModelForward \<lparr>dim1 = 1, rows = [[98]]\<rparr> \<lparr>dim1 = 1, rows = [[1]]\<rparr> False,
                  AppendTrainingStats (Validation_loss (9604 :: int)),
                  LoggerInfo ''Validation Loss''] = []
   \<and> length (validation_losses [ModelEval, Tokenizer [''b''] False,
                  ModelForward \<lparr>dim1 = 1, rows = [[98]]\<rparr> \<lparr>dim1 = 1, rows = [[1]]\<rparr> False,
                  AppendTrainingStats (Validation_loss (9604 :: int)),
                  LoggerInfo ''Validation Loss'']) = 1"
proof -
  have h: "validation stub_trainer stub_config stub_state =
     (Inr (), stub_state\<lparr>training := False,
        trace := [ModelEval, Tokenizer [''b''] False,
                  ModelForward \<lparr>dim1 = 1, rows = [[98]]\<rparr> \<lparr>dim1 = 1, rows = [[1]]\<rparr> False,
                  AppendTrainingStats (Validation_loss 9604),
                  LoggerInfo ''Validation Loss'']\<rparr>)"
    by code_simp
  have e: "validation_flag stub_trainer" "length (validation_dataloader stub_trainer) = 1"
    "trace stub_state = []"
    by (simp_all add: stub_trainer_def stub_state_def)
  from validation_leaves_training_state [OF h] show ?thesis
    using h e by auto
qed


lemma variant_calls_inject:
  "variant_calls v ids am g l = variant_calls w ids' am' g' l' \<Longrightarrow> v = w"
  by (cases v; cases w) simp_all

lemma Print_backend_calls:
  "list_all (\<lambda>c. \<exists>msg. c = Print msg) ps \<Longrightarrow> backend_calls ps = []"
  by (induction ps) auto

lemma forward_pass_backend_calls:
  assumes "forward_pass tr cfg ids am s = (r, s')"
  shows "\<exists>ps. trace s' = trace s @ ps
     \<and> (deepspeed_enable cfg \<longrightarrow>
           backend_calls ps = [EngineForward ids am (grad_enabled s)]
         \<and> (\<forall>est. r = Inr est \<longrightarrow>
               (\<exists>out. model_engine tr (mstate s) ids am = Inr out \<and> last_column out = Inr est)))
     \<and> (\<not> deepspeed_enable cfg \<longrightarrow>
           (backend_calls ps = [] \<or> backend_calls ps = [ModelForward ids am (grad_enabled s)])
         \<and> ((\<exists>est. r = Inr est) \<longrightarrow> backend_calls ps = [ModelForward ids am (grad_enabled s)])
         \<and> r = fst (get_reward tr cfg ids am s))"
proof (cases "deepspeed_enable cfg")
  case True
  with assms show ?thesis
    by (auto simp: forward_pass_def Let_def split: sum.splits)
next
  case False
  with assms have gr: "get_reward tr cfg ids am s = (r, s')"
    by (simp add: forward_pass_def)
  show ?thesis
  proof (cases "int (dim1 ids) > max_sequence_length cfg")
    case True
    with gr have "s' = s" "r = Inl (ValueError (dim1 ids) (max_sequence_length cfg))"
      by (auto simp: get_reward_def)
    then show ?thesis using False gr by auto
  next
    case F: False
    obtain r1 s1 where fw: "forward tr cfg ids am s = (r1, s1)"
      by (cases "forward tr cfg ids am s")
    from forward_trace [OF fw] obtain ps where
      ps: "trace s1 = trace s @ ModelForward ids am (grad_enabled s) # ps"
        "list_all (\<lambda>c. \<exists>msg. c = Print msg) ps"
      by blast
    from gr F fw have "s' = s1"
      by (auto simp: get_reward_def split: sum.splits)
    then have "trace s' = trace s @ (ModelForward ids am (grad_enabled s) # ps)"
      using ps(1) by simp
    moreover have "backend_calls (ModelForward ids am (grad_enabled s) # ps) =
        [ModelForward ids am (grad_enabled s)]"
      using Print_backend_calls [OF ps(2)] by simp
    ultimately show ?thesis using False gr by auto
  qed
qed

text \<open>
  C6. The backend calls of a training step (forward calls and updating calls)
  are those of exactly one variant, selected by the flags with the fixed
  precedence: distributed-optimized if the deepspeed flag is set, otherwise
  accelerated if the accelerate flag is set, otherwise plain. A step that
  completes has made the whole sequence of that variant, on the tokens of the
  batch and with the loss of the reward its own forward pass returned (the
  last column of the engine's output in the distributed-optimized variant,
  \<open>get_reward\<close> in the others), and this sequence is the sequence of no
  other variant. A step that raises has made an initial part of it.
\<close>

theorem backend_variant_precedence:
  fixes tr :: "('m, 'h, 'f) trainer"
  assumes "train_step tr cfg n_iter epoch i inputs s = (r, s')"
      and "tokenizer tr (fst inputs) True = (input_ids, attention_mask)"
  defines "v \<equiv> (if deepspeed_enable cfg then Distributed_optimized
                 else if accelerate_enable cfg then Accelerated else Plain)"
  shows "\<exists>t. trace s' = trace s @ t
     \<and> (\<exists>l u. backend_calls t @ u =
                 variant_calls v input_ids attention_mask (grad_enabled s) l)
     \<and> (r = Inr () \<longrightarrow>
          (\<exists>est. (if deepspeed_enable cfg
                   then \<exists>out. model_engine tr (mstate s) input_ids attention_mask = Inr out
                           \<and> last_column out = Inr est
                   else fst (get_reward tr cfg input_ids attention_mask
                               (call (Tokenizer (fst inputs) True) s)) = Inr est)
                \<and> backend_calls t =
                    variant_calls v input_ids attention_mask (grad_enabled s)
                      (loss_function tr est (snd inputs)))
          \<and> (\<forall>w ids' am' g' l'.
                 backend_calls t = variant_calls w ids' am' g' (l' :: 'f) \<longrightarrow> w = v))"
proof -
  define s1 where "s1 = call (Tokenizer (fst inputs) True) s"
  obtain r2 s2 where fp: "forward_pass tr cfg input_ids attention_mask s1 = (r2, s2)"
    by (cases "forward_pass tr cfg input_ids attention_mask s1")
  from forward_pass_backend_calls [OF fp] obtain ps where
    ps: "trace s2 = trace s1 @ ps"
    and ds: "deepspeed_enable cfg \<longrightarrow>
           backend_calls ps = [EngineForward input_ids attention_mask (grad_enabled s1)]
         \<and> (\<forall>est. r2 = Inr est \<longrightarrow>
               (\<exists>out. model_engine tr (mstate s1) input_ids attention_mask = Inr out
                  \<and> last_column out = Inr est))"
    and nds: "\<not> deepspeed_enable cfg \<longrightarrow>
           (backend_calls ps = []
            \<or> backend_calls ps = [ModelForward input_ids attention_mask (grad_enabled s1)])
         \<and> ((\<exists>est. r2 = Inr est) \<longrightarrow>
               backend_calls ps = [ModelForward input_ids attention_mask (grad_enabled s1)])
         \<and> r2 = fst (get_reward tr cfg input_ids attention_mask s1)"
    by blast
  have g1: "grad_enabled s1 = grad_enabled s" "mstate s1 = mstate s" "trace s1 = trace s @ [Tokenizer (fst inputs) True]"
    by (simp_all add: s1_def)
  show ?thesis
  proof (cases r2)
    case (Inl e)
    with assms(1,2) fp have "s' = s2" "r = Inl e"
      by (auto simp: train_step_def tokenize_input_eq s1_def Let_def)
    then have t: "trace s' = trace s @ (Tokenizer (fst inputs) True # ps)"
      using ps g1 by simp
    have b: "backend_calls (Tokenizer (fst inputs) True # ps) = backend_calls ps"
      by simp
    have "\<exists>l u. backend_calls ps @ u =
                 variant_calls v input_ids attention_mask (grad_enabled s) l"
      using ds nds unfolding g1 v_def
      by (cases "deepspeed_enable cfg"; cases "accelerate_enable cfg") auto
    with t b \<open>r = Inl e\<close> show ?thesis by auto
  next
    case (Inr est)
    define l where "l = loss_function tr est (snd inputs)"
    define s4 where "s4 = backward_pass tr cfg l (call (AppendTrainingStats (Training_loss l)) s2)"
    obtain r5 s5 where pp: "print_progress cfg i s4 = (r5, s5)"
      by (cases "print_progress cfg i s4")
    from print_progress_effect [OF pp] obtain lg where
      lg: "trace s5 = trace s4 @ lg" "list_all (\<lambda>c. \<exists>msg. c = LoggerInfo msg) lg"
      by blast
    have t4: "trace s4 = trace s2 @ AppendTrainingStats (Training_loss l)
        # (if deepspeed_enable cfg then [EngineBackward l, EngineStep]
           else if accelerate_enable cfg
           then [ZeroGrad, AcceleratorBackward l, OptimizerStep, SchedulerStep]
           else [ZeroGrad, LossBackward l, OptimizerStep, SchedulerStep])"
      by (simp add: s4_def backward_pass_trace)
    have "\<exists>sv. trace s' = trace s5 @ sv \<and> backend_calls sv = []"
    proof (cases r5)
      case (Inl e)
      with assms(1,2) fp Inr pp have "s' = s5"
        by (auto simp: train_step_def tokenize_input_eq s1_def Let_def l_def s4_def)
      then show ?thesis by simp
    next
      case r5: (Inr u5)
      with assms(1,2) fp Inr pp have "checkpoints_saving cfg epoch i n_iter s5 = (r, s')"
        by (auto simp: train_step_def tokenize_input_eq s1_def Let_def l_def s4_def)
      then show ?thesis
        by (auto simp: checkpoints_saving_def split: if_splits)
    qed
    then obtain sv where sv: "trace s' = trace s5 @ sv" "backend_calls sv = []"
      by blast
    define t where "t = Tokenizer (fst inputs) True # ps @ AppendTrainingStats (Training_loss l)
        # (if deepspeed_enable cfg then [EngineBackward l, EngineStep]
           else if accelerate_enable cfg
           then [ZeroGrad, AcceleratorBackward l, OptimizerStep, SchedulerStep]
           else [ZeroGrad, LossBackward l, OptimizerStep, SchedulerStep]) @ lg @ sv"
    have t: "trace s' = trace s @ t"
      using sv(1) lg(1) t4 ps g1(3) by (simp add: t_def)
    have fwd: "backend_calls ps =
        (if deepspeed_enable cfg then [EngineForward input_ids attention_mask (grad_enabled s)]
         else [ModelForward input_ids attention_mask (grad_enabled s)])"
      using ds nds Inr unfolding g1 by simp
    have bc: "backend_calls t = variant_calls v input_ids attention_mask (grad_enabled s) l"
      unfolding v_def t_def
      by (cases "deepspeed_enable cfg"; cases "accelerate_enable cfg")
        (simp_all add: fwd sv(2) LoggerInfo_observations(3) [OF lg(2)])
    have est: "if deepspeed_enable cfg
                   then \<exists>out. model_engine tr (mstate s) input_ids attention_mask = Inr out
                           \<and> last_column out = Inr est
                   else fst (get_reward tr cfg input_ids attention_mask
                               (call (Tokenizer (fst inputs) True) s)) = Inr est"
      using ds nds Inr unfolding g1 by (auto simp: s1_def)
    have uniq: "\<forall>w ids' am' g' l'.
                 backend_calls t = variant_calls w ids' am' g' (l' :: 'f) \<longrightarrow> w = v"
      unfolding bc using variant_calls_inject by metis
    have "\<exists>l u. backend_calls t @ u =
                 variant_calls v input_ids attention_mask (grad_enabled s) l"
      using bc by (metis append_Nil2)
    with t bc est uniq show ?thesis unfolding l_def by blast
  qed
qed


lemma stub_step_both_flags:
  "train_step stub_trainer (stub_config\<lparr>deepspeed_enable := True, accelerate_enable := True\<rparr>)
      1 0 0 ([''ab'', ''c''], [1, 0]) stub_state =
     (Inr (), stub_state\<lparr>mstate := 1, cnt_checkpoints := 1,
        trace := [Tokenizer [''ab'', ''c''] True,
                  EngineForward \<lparr>dim1 = 2, rows = [[97, 98], [99, 0]]\<rparr>
                    \<lparr>dim1 = 2, rows = [[1, 1], [1, 0]]\<rparr> True,
                  AppendTrainingStats (Training_loss 9409),
                  EngineBackward 9409, EngineStep,
                  LoggerInfo ''Training Loss'', LoggerInfo ''prediction'',
                  SaveCheckpoint 0 0 2 1]\<rparr>)"
  by code_simp

theorem backend_variant_precedence_witness:
  "train_step stub_trainer (stub_config\<lparr>deepspeed_enable := True, accelerate_enable := True\<rparr>)
      1 0 0 ([''ab'', ''c''], [1, 0]) stub_state =
     (Inr (), stub_state\<lparr>mstate := 1, cnt_checkpoints := 1,
        trace := [Tokenizer [''ab'', ''c''] True,
                  EngineForward \<lparr>dim1 = 2, rows = [[97, 98], [99, 0]]\<rparr>
                    \<lparr>dim1 = 2, rows = [[1, 1], [1, 0]]\<rparr> True,
                  AppendTrainingStats (Training_loss 9409),
                  EngineBackward 9409, EngineStep,
                  LoggerInfo ''Training Loss'', LoggerInfo ''prediction'',
                  SaveCheckpoint 0 0 2 1]\<rparr>)
   \<and> tokenizer stub_trainer (fst ([''ab'', ''c''], [1, 0 :: int])) True =
       (\<lparr>dim1 = 2, rows = [[97, 98], [99, 0]]\<rparr>, \<lparr>dim1 = 2, rows = [[1, 1], [1, 0]]\<rparr>)
   \<and> backend_calls [Tokenizer [''ab'', ''c''] True,
                  EngineForward \<lparr>dim1 = 2, rows = [[97, 98], [99, 0]]\<rparr>
                    \<lparr>dim1 = 2, rows = [[1, 1], [1, 0]]\<rparr> True,
                  AppendTrainingStats (Training_loss 9409),
                  EngineBackward 9409, EngineStep,
                  LoggerInfo ''Training Loss'', LoggerInfo ''prediction'',
                  SaveCheckpoint 0 0 2 1] =
       variant_calls Distributed_optimized \<lparr>dim1 = 2, rows = [[97, 98], [99, 0]]\<rparr>
         \<lparr>dim1 = 2, rows = [[1, 1], [1, 0]]\<rparr> True (9409 :: int)
   \<and> Distributed_optimized =
       (if deepspeed_enable (stub_config\<lparr>deepspeed_enable := True, accelerate_enable := True\<rparr>)
        then Distributed_optimized
        else if accelerate_enable (stub_config\<lparr>deepspeed_enable := True, accelerate_enable := True\<rparr>)
        then Accelerated else Plain)"
proof -
  have h2: "tokenizer stub_trainer (fst ([''ab'', ''c''], [1, 0 :: int])) True =
       (\<lparr>dim1 = 2, rows = [[97, 98], [99, 0]]\<rparr>, \<lparr>dim1 = 2, rows = [[1, 1], [1, 0]]\<rparr>)"
    by code_simp
  have b: "backend_calls [Tokenizer [''ab'', ''c''] True,
                  EngineForward \<lparr>dim1 = 2, rows = [[97, 98], [99, 0]]\<rparr>
                    \<lparr>dim1 = 2, rows = [[1, 1], [1, 0]]\<rparr> True,
                  AppendTrainingStats (Training_loss 9409),
                  EngineBackward 9409, EngineStep,
                  LoggerInfo ''Training Loss'', LoggerInfo ''prediction'',
                  SaveCheckpoint 0 0 2 1] =
       variant_calls Distributed_optimized \<lparr>dim1 = 2, rows = [[97, 98], [99, 0]]\<rparr>
         \<lparr>dim1 = 2, rows = [[1, 1], [1, 0]]\<rparr> True (9409 :: int)"
    by simp
  have e: "trace stub_state = []"
    by (simp add: stub_state_def)
  from backend_variant_precedence [OF stub_step_both_flags h2]
  have "\<forall>w ids' am' g' l'.
          backend_calls [Tokenizer [''ab'', ''c''] True,
                  EngineForward \<lparr>dim1 = 2, rows = [[97, 98], [99, 0]]\<rparr>
                    \<lparr>dim1 = 2, rows = [[1, 1], [1, 0]]\<rparr> True,
                  AppendTrainingStats (Training_loss 9409),
                  EngineBackward 9409, EngineStep,
                  LoggerInfo ''Training Loss'', LoggerInfo ''prediction'',
                  SaveCheckpoint 0 0 2 1] = variant_calls w ids' am' g' (l' :: int) \<longrightarrow>
          w = (if deepspeed_enable (stub_config\<lparr>deepspeed_enable := True, accelerate_enable := True\<rparr>)
        then Distributed_optimized
        else if accelerate_enable (stub_config\<lparr>deepspeed_enable := True, accelerate_enable := True\<rparr>)
        then Accelerated else Plain)"
    unfolding e by simp
  with b have "Distributed_optimized =
       (if deepspeed_enable (stub_config\<lparr>deepspeed_enable := True, accelerate_enable := True\<rparr>)
        then Distributed_optimized
        else if accelerate_enable (stub_config\<lparr>deepspeed_enable := True, accelerate_enable := True\<rparr>)
        then Accelerated else Plain)"
    by blast
  with stub_step_both_flags h2 b show ?thesis by blast
qed

text \<open>
  C7. A training step that completes makes, as its only updating calls:
  \<open>engine.backward\<close> then \<open>engine.step\<close> in the distributed-optimized
  variant, with no \<open>zero_grad\<close> and no scheduler step; \<open>zero_grad\<close>, the
  backward pass (through the accelerator in the accelerated variant, on the
  loss in the plain one), the optimizer step and the scheduler step otherwise.
\<close>

theorem backend_step_calls:
  assumes "train_step tr cfg n_iter epoch i inputs s = (Inr u, s')"
  shows "\<exists>t l. trace s' = trace s @ t
           \<and> updates t =
               (if deepspeed_enable cfg then [EngineBackward l, EngineStep]
                else if accelerate_enable cfg
                then [ZeroGrad, AcceleratorBackward l, OptimizerStep, SchedulerStep]
                else [ZeroGrad, LossBackward l, OptimizerStep, SchedulerStep])
           \<and> mstate s' =
               (if deepspeed_enable cfg then engine_step tr (engine_backward tr l (mstate s))
                else if accelerate_enable cfg
                then scheduler_step tr (optimizer_step tr
                       (accelerator_backward tr l (zero_grad tr (mstate s))))
                else scheduler_step tr (optimizer_step tr
                       (loss_backward tr l (zero_grad tr (mstate s)))))"
proof -
  from train_step_success [OF assms] obtain fw l lg where
    t: "trace s' = trace s @ Tokenizer (fst inputs) True # fw
        @ AppendTrainingStats (Training_loss l)
        # (if deepspeed_enable cfg then [EngineBackward l, EngineStep]
           else if accelerate_enable cfg
           then [ZeroGrad, AcceleratorBackward l, OptimizerStep, SchedulerStep]
           else [ZeroGrad, LossBackward l, OptimizerStep, SchedulerStep])
        @ lg
        @ (if cnt_checkpoints s mod checkpoint_steps cfg = 0
           then [SaveCheckpoint epoch i (epochs cfg) n_iter] else [])"
    and fw: "list_all (\<lambda>c. (deepspeed_enable cfg \<and> c = EngineForward (fst (tokenizer tr (fst inputs) True))
                          (snd (tokenizer tr (fst inputs) True)) (grad_enabled s))
                   \<or> (\<not> deepspeed_enable cfg \<and> c = ModelForward (fst (tokenizer tr (fst inputs) True))
                          (snd (tokenizer tr (fst inputs) True)) (grad_enabled s))
                   \<or> (\<exists>msg. c = Print msg)) fw"
    and lg: "list_all (\<lambda>c. \<exists>msg. c = LoggerInfo msg) lg"
    and ms: "mstate s' =
          (if deepspeed_enable cfg then engine_step tr (engine_backward tr l (mstate s))
           else if accelerate_enable cfg
           then scheduler_step tr (optimizer_step tr
                  (accelerator_backward tr l (zero_grad tr (mstate s))))
           else scheduler_step tr (optimizer_step tr
                  (loss_backward tr l (zero_grad tr (mstate s)))))"
    by blast
  define t where "t = Tokenizer (fst inputs) True # fw
        @ AppendTrainingStats (Training_loss l)
        # (if deepspeed_enable cfg then [EngineBackward l, EngineStep]
           else if accelerate_enable cfg
           then [ZeroGrad, AcceleratorBackward l, OptimizerStep, SchedulerStep]
           else [ZeroGrad, LossBackward l, OptimizerStep, SchedulerStep])
        @ lg
        @ (if cnt_checkpoints s mod checkpoint_steps cfg = 0
           then [SaveCheckpoint epoch i (epochs cfg) n_iter] else [])"
  have "updates t =
               (if deepspeed_enable cfg then [EngineBackward l, EngineStep]
                else if accelerate_enable cfg
                then [ZeroGrad, AcceleratorBackward l, OptimizerStep, SchedulerStep]
                else [ZeroGrad, LossBackward l, OptimizerStep, SchedulerStep])"
    unfolding t_def
    by (simp add: forward_observations(2) [OF fw] LoggerInfo_observations(2) [OF lg])
  moreover have "trace s' = trace s @ t" using t by (simp add: t_def)
  ultimately show ?thesis using ms by blast
qed

lemma stub_step_plain:
  "train_step stub_trainer stub_config 1 0 0 ([''ab'', ''c''], [1, 0]) stub_state =
     (Inr (), stub_state\<lparr>mstate := 1, cnt_checkpoints := 1,
        trace := [Tokenizer [''ab'', ''c''] True,
                  ModelForward \<lparr>dim1 = 2, rows = [[97, 98], [99, 0]]\<rparr>
                    \<lparr>dim1 = 2, rows = [[1, 1], [1, 0]]\<rparr> True,
                  AppendTrainingStats (Training_loss 9409),
                  ZeroGrad, LossBackward 9409, OptimizerStep, SchedulerStep,
                  LoggerInfo ''Training Loss'', LoggerInfo ''prediction'',
                  SaveCheckpoint 0 0 2 1]\<rparr>)"
  by code_simp

theorem backend_step_calls_witness:
  "train_step stub_trainer stub_config 1 0 0 ([''ab'', ''c''], [1, 0]) stub_state =
     (Inr (), stub_state\<lparr>mstate := 1, cnt_checkpoints := 1,
        trace := [Tokenizer [''ab'', ''c''] True,
                  ModelForward \<lparr>dim1 = 2, rows = [[97, 98], [99, 0]]\<rparr>
                    \<lparr>dim1 = 2, rows = [[1, 1], [1, 0]]\<rparr> True,
                  AppendTrainingStats (Training_loss 9409),
                  ZeroGrad, LossBackward 9409, OptimizerStep, SchedulerStep,
                  LoggerInfo ''Training Loss'', LoggerInfo ''prediction'',
                  SaveCheckpoint 0 0 2 1]\<rparr>)
   \<and> (\<exists>l. updates [Tokenizer [''ab'', ''c''] True,
                  ModelForward \<lparr>dim1 = 2, rows = [[97, 98], [99, 0]]\<rparr>
                    \<lparr>dim1 = 2, rows = [[1, 1], [1, 0]]\<rparr> True,
                  AppendTrainingStats (Training_loss (9409 :: int)),
                  ZeroGrad, LossBackward 9409, OptimizerStep, SchedulerStep,
                  LoggerInfo ''Training Loss'', LoggerInfo ''prediction'',
                  SaveCheckpoint 0 0 2 1] =
         [ZeroGrad, LossBackward l, OptimizerStep, SchedulerStep])"
proof -
  have e: "\<not> deepspeed_enable stub_config" "\<not> accelerate_enable stub_config"
    "trace stub_state = []"
    by (simp_all add: stub_config_def stub_state_def)
  from backend_step_calls [OF stub_step_plain] show ?thesis
    using stub_step_plain unfolding e by auto
qed


text \<open>
  C10. For a training batch whose token sequence is longer than
  \<open>max_sequence_length\<close>: with the deepspeed flag set, the training step
  calls the forward of the engine on it, and a reward the engine returns is
  used to record a training loss; with the flag unset, the step raises the
  length validation error after the call of the tokenizer, with no forward
  call.
\<close>

theorem deepspeed_path_skips_length_check:
  assumes "tokenizer tr (fst inputs) True = (input_ids, attention_mask)"
      and "max_sequence_length cfg < int (dim1 input_ids)"
  shows "(deepspeed_enable cfg \<longrightarrow>
            (\<exists>t. trace (snd (train_step tr cfg n_iter epoch i inputs s)) =
                    trace s @ Tokenizer (fst inputs) True
                      # EngineForward input_ids attention_mask (grad_enabled s) # t)
          \<and> (\<forall>out est. model_engine tr (mstate s) input_ids attention_mask = Inr out
                 \<and> last_column out = Inr est \<longrightarrow>
               AppendTrainingStats (Training_loss (loss_function tr est (snd inputs)))
                 \<in> set (trace (snd (train_step tr cfg n_iter epoch i inputs s)))))
       \<and> (\<not> deepspeed_enable cfg \<longrightarrow>
            train_step tr cfg n_iter epoch i inputs s =
              (Inl (ValueError (dim1 input_ids) (max_sequence_length cfg)),
               call (Tokenizer (fst inputs) True) s))"
proof (cases "deepspeed_enable cfg")
  case False
  then show ?thesis
    using assms by (simp add: train_step_def tokenize_input_eq forward_pass_def get_reward_def)
next
  case True
  have 1: "\<exists>t. trace (snd (train_step tr cfg n_iter epoch i inputs s)) =
                    trace s @ Tokenizer (fst inputs) True
                      # EngineForward input_ids attention_mask (grad_enabled s) # t"
    using assms True
    by (auto simp: train_step_def tokenize_input_eq forward_pass_def Let_def
        backward_pass_def print_progress_def checkpoints_saving_def
        split: sum.splits prod.splits if_splits)
  have 2: "AppendTrainingStats (Training_loss (loss_function tr est (snd inputs)))
                 \<in> set (trace (snd (train_step tr cfg n_iter epoch i inputs s)))"
    if "model_engine tr (mstate s) input_ids attention_mask = Inr out"
      and "last_column out = Inr est" for out est
    using assms True that
    by (auto simp: train_step_def tokenize_input_eq forward_pass_def Let_def
        backward_pass_def print_progress_def checkpoints_saving_def
        split: sum.splits prod.splits if_splits)
  from 1 2 True show ?thesis by blast
qed

lemma stub_step_long_deepspeed:
  "train_step stub_trainer (stub_config\<lparr>deepspeed_enable := True\<rparr>) 1 0 0 ([''abc''], [1])
     stub_state =
     (Inr (), stub_state\<lparr>mstate := 1, cnt_checkpoints := 1,
        trace := [Tokenizer [''abc''] True,
                  EngineForward \<lparr>dim1 = 3, rows = [[97, 98, 99]]\<rparr>
                    \<lparr>dim1 = 3, rows = [[1, 1, 1]]\<rparr> True,
                  AppendTrainingStats (Training_loss 9604),
                  EngineBackward 9604, EngineStep,
                  LoggerInfo ''Training Loss'', LoggerInfo ''prediction'',
                  SaveCheckpoint 0 0 2 1]\<rparr>)"
  by code_simp

theorem deepspeed_path_skips_length_check_witness:
  "tokenizer stub_trainer (fst ([''abc''], [1 :: int])) True =
     (\<lparr>dim1 = 3, rows = [[97, 98, 99]]\<rparr>, \<lparr>dim1 = 3, rows = [[1, 1, 1]]\<rparr>)
   \<and> max_sequence_length stub_config < int (dim1 \<lparr>dim1 = 3, rows = [[97, 98, 99 :: nat]]\<rparr>)
   \<and> deepspeed_enable (stub_config\<lparr>deepspeed_enable := True\<rparr>)
   \<and> model_engine stub_trainer (mstate stub_state) \<lparr>dim1 = 3, rows = [[97, 98, 99]]\<rparr>
        \<lparr>dim1 = 3, rows = [[1, 1, 1]]\<rparr> = Inr \<lparr>dim1 = 3, rows = [[97, 98, 99]]\<rparr>
   \<and> last_column \<lparr>dim1 = 3, rows = [[97, 98, 99 :: int]]\<rparr> = Inr [99]
   \<and> AppendTrainingStats (Training_loss 9604)
        \<in> set (trace (snd (train_step stub_trainer (stub_config\<lparr>deepspeed_enable := True\<rparr>)
                 1 0 0 ([''abc''], [1]) stub_state)))
   \<and> \<not> deepspeed_enable stub_config
   \<and> train_step stub_trainer stub_config 1 0 0 ([''abc''], [1]) stub_state =
       (Inl (ValueError 3 2), call (Tokenizer [''abc''] True) stub_state)"
proof -
  have h1: "tokenizer stub_trainer (fst ([''abc''], [1 :: int])) True =
     (\<lparr>dim1 = 3, rows = [[97, 98, 99]]\<rparr>, \<lparr>dim1 = 3, rows = [[1, 1, 1]]\<rparr>)"
    by code_simp
  have h2: "max_sequence_length stub_config < int (dim1 \<lparr>dim1 = 3, rows = [[97, 98, 99 :: nat]]\<rparr>)"
    by (simp add: stub_config_def)
  have h2': "max_sequence_length (stub_config\<lparr>deepspeed_enable := True\<rparr>)
       < int (dim1 \<lparr>dim1 = 3, rows = [[97, 98, 99 :: nat]]\<rparr>)"
    by (simp add: stub_config_def)
  have d: "deepspeed_enable (stub_config\<lparr>deepspeed_enable := True\<rparr>)"
    "\<not> deepspeed_enable stub_config"
    by (simp_all add: stub_config_def)
  have e: "model_engine stub_trainer (mstate stub_state) \<lparr>dim1 = 3, rows = [[97, 98, 99]]\<rparr>
        \<lparr>dim1 = 3, rows = [[1, 1, 1]]\<rparr> = Inr \<lparr>dim1 = 3, rows = [[97, 98, 99]]\<rparr>"
    by (simp add: stub_trainer_def stub_state_def map_tensor2_def)
  have l: "last_column \<lparr>dim1 = 3, rows = [[97, 98, 99 :: int]]\<rparr> = Inr [99]"
    by (simp add: last_column_def)
  have lf: "loss_function stub_trainer [99] (snd ([''abc''], [1 :: int])) = 9604"
    by (simp add: stub_trainer_def)
  have m: "max_sequence_length stub_config = 2"
    by (simp add: stub_config_def)
  note A = deepspeed_path_skips_length_check [OF h1 h2',
      of 1 0 0 stub_state]
  note B = deepspeed_path_skips_length_check [OF h1 h2, of 1 0 0 stub_state]
  from A d(1) e l have a: "AppendTrainingStats (Training_loss 9604)
        \<in> set (trace (snd (train_step stub_trainer (stub_config\<lparr>deepspeed_enable := True\<rparr>)
                 1 0 0 ([''abc''], [1]) stub_state)))"
    unfolding lf [symmetric] by blast
  from B d(2) have b: "train_step stub_trainer stub_config 1 0 0 ([''abc''], [1]) stub_state =
       (Inl (ValueError 3 2), call (Tokenizer [''abc''] True) stub_state)"
    by (simp add: m)
  from h1 h2 d e l a b show ?thesis by blast
qed

end
